theory Spec2Isabelle
  imports
    Complex_Main
    "HOL-Library.State_Monad"
    "HOL-Library.Sublist"
    "HOL-Library.AList"
    "HOL-Library.Char_ord"
    "HOL-Library.List_Lexorder"
begin

section \<open>The icon generator (scripts/generate_apple_icons.py)\<close>

subsection \<open>Constants and palette\<close>

text \<open>
  The module constants, as the source writes them. A colour is the 4-tuple of its
  red, green, blue and alpha bytes.
\<close>

type_synonym rgba = "nat \<times> nat \<times> nat \<times> nat"

definition SIZE :: int where "SIZE = 512"
definition SCALE :: int where "SCALE = 4"
definition CANVAS :: int where "CANVAS = SIZE * SCALE"

definition WHITE :: rgba where "WHITE = (243, 246, 252, 255)"
definition SOFT_WHITE :: rgba where "SOFT_WHITE = (220, 228, 242, 255)"
definition BLUE :: rgba where "BLUE = (10, 132, 255, 255)"
definition ORANGE :: rgba where "ORANGE = (255, 159, 10, 255)"
definition RED :: rgba where "RED = (255, 69, 58, 255)"
definition GREEN :: rgba where "GREEN = (52, 199, 89, 255)"

subsection \<open>Coordinate scaler\<close>

text \<open>
  Python's \<^verbatim>\<open>int(x)\<close> on a float discards the fractional part: it truncates toward
  zero. The argument of \<^verbatim>\<open>_w\<close> is a float; multiplying a finite float by 4 is exact
  (short of overflow), so the product is modelled by the product of reals.
  Isabelle names cannot start with an underscore: \<^verbatim>\<open>_w\<close>, \<^verbatim>\<open>_stroke\<close>, \<^verbatim>\<open>_new\<close>,
  \<^verbatim>\<open>_save\<close> and \<^verbatim>\<open>_rounded_rect\<close> are \<open>u_w\<close>, \<open>u_stroke\<close>, \<open>u_new\<close>, \<open>u_save\<close> and
  \<open>u_rounded_rect\<close> here.
\<close>

definition py_int :: "real \<Rightarrow> int" where
  "py_int x = (if 0 \<le> x then \<lfloor>x\<rfloor> else \<lceil>x\<rceil>)"

definition u_w :: "real \<Rightarrow> int" where
  "u_w value = py_int (value * real_of_int SCALE)"

definition u_stroke :: "real \<Rightarrow> int" where
  "u_stroke base = u_w base"

subsection \<open>Canvases and the drawing interface\<close>

text \<open>
  An image is a mutable Pillow object. The generator allocates one per builder call and
  paints on it through the \<^verbatim>\<open>ImageDraw\<close> handle bound to it. The objects of the
  process live in a heap (a list; a reference is an index), and every Pillow call of the
  source is a step of a state monad over that heap, so that what a builder reads and
  writes is explicit.

  Pillow's rasteriser is not part of the repository. The pixel content of an image is
  determined by its mode, its size, the colour \<^verbatim>\<open>Image.new\<close> filled it with and the
  drawing calls made on it, in order; the model keeps exactly these.
  The arguments of each call are Pillow's, in the order of its signature; where the
  source leaves one out its Pillow default is written (\<open>None\<close> for a colour, width 1,
  for a line width 0 and no joint).
\<close>

type_synonym box = "int \<times> int \<times> int \<times> int"

datatype font = LoadDefault int

datatype draw_call =
    Ellipse box "rgba option" "rgba option" int
  | Arc box int int "rgba option" int
  | Line "int list" "rgba option" int "string option"
  | Polygon "(int \<times> int) list" "rgba option" "rgba option" int
  | RoundedRectangle box int "rgba option" "rgba option" int
  | Text "int \<times> int" string "rgba option" font

record image =
  im_mode :: string
  im_size :: "int \<times> int"
  im_color :: rgba
  im_calls :: "draw_call list"

type_synonym heap = "image list"
type_synonym ref = nat

definition Image_new :: "string \<Rightarrow> int \<times> int \<Rightarrow> rgba \<Rightarrow> (heap, ref) state" where
  "Image_new m sz c =
     State (\<lambda>h. (length h, h @ [\<lparr>im_mode = m, im_size = sz, im_color = c, im_calls = []\<rparr>]))"

definition paint :: "ref \<Rightarrow> draw_call \<Rightarrow> (heap, unit) state" where
  "paint d c =
     State_Monad.update
       (\<lambda>h. if d < length h then h[d := (h ! d)\<lparr>im_calls := im_calls (h ! d) @ [c]\<rparr>] else h)"

definition ellipse :: "ref \<Rightarrow> box \<Rightarrow> rgba option \<Rightarrow> rgba option \<Rightarrow> int \<Rightarrow> (heap, unit) state" where
  "ellipse d xy fill outline width = paint d (Ellipse xy fill outline width)"

definition arc :: "ref \<Rightarrow> box \<Rightarrow> int \<Rightarrow> int \<Rightarrow> rgba option \<Rightarrow> int \<Rightarrow> (heap, unit) state" where
  "arc d xy start stop fill width = paint d (Arc xy start stop fill width)"

definition line :: "ref \<Rightarrow> int list \<Rightarrow> rgba option \<Rightarrow> int \<Rightarrow> string option \<Rightarrow> (heap, unit) state" where
  "line d xy fill width joint = paint d (Line xy fill width joint)"

definition polygon ::
  "ref \<Rightarrow> (int \<times> int) list \<Rightarrow> rgba option \<Rightarrow> rgba option \<Rightarrow> int \<Rightarrow> (heap, unit) state" where
  "polygon d xy fill outline width = paint d (Polygon xy fill outline width)"

definition rounded_rectangle ::
  "ref \<Rightarrow> box \<Rightarrow> int \<Rightarrow> rgba option \<Rightarrow> rgba option \<Rightarrow> int \<Rightarrow> (heap, unit) state" where
  "rounded_rectangle d xy radius fill outline width =
     paint d (RoundedRectangle xy radius fill outline width)"

definition draw_text ::
  "ref \<Rightarrow> int \<times> int \<Rightarrow> string \<Rightarrow> rgba option \<Rightarrow> font \<Rightarrow> (heap, unit) state" where
  "draw_text d xy txt fill fnt = paint d (Text xy txt fill fnt)"

text \<open>
  \<^verbatim>\<open>_new\<close> returns the image and the drawing handle bound to it: two references to the
  same object.
\<close>

definition u_new :: "(heap, ref \<times> ref) state" where
  "u_new = do {
     img \<leftarrow> Image_new ''RGBA'' (CANVAS, CANVAS) (0, 0, 0, 0);
     State_Monad.return (img, img)
   }"

definition u_rounded_rect ::
  "ref \<Rightarrow> box \<Rightarrow> int \<Rightarrow> rgba option \<Rightarrow> int \<Rightarrow> (heap, unit) state" where
  "u_rounded_rect draw xy radius outline width =
     rounded_rectangle draw xy radius None outline width"

text \<open>
  A \<^verbatim>\<open>for\<close> loop over a sequence: the body runs once per element, in order, and
  hands the loop-carried local variables (\<open>v\<close>) to the next round.
\<close>

fun for_loop :: "'a list \<Rightarrow> ('a \<Rightarrow> 'v \<Rightarrow> (heap, 'v) state) \<Rightarrow> 'v \<Rightarrow> (heap, 'v) state" where
  "for_loop [] body v = State_Monad.return v"
| "for_loop (x # xs) body v = do { v' \<leftarrow> body x v; for_loop xs body v' }"

subsection \<open>Icon builders\<close>

definition icon_singing :: "(heap, ref) state" where
  "icon_singing = do {
     (img, d) \<leftarrow> u_new;
     let s = u_stroke 42;
     ellipse d (u_w 180, u_w 90, u_w 332, u_w 250) None (Some WHITE) s;
     arc d (u_w 180, u_w 154, u_w 332, u_w 316) 20 160 (Some WHITE) s;
     line d [u_w 256, u_w 250, u_w 256, u_w 372] (Some WHITE) s None;
     arc d (u_w 174, u_w 356, u_w 338, u_w 432) 200 340 (Some WHITE) s;
     line d [u_w 384, u_w 180, u_w 422, u_w 164, u_w 462, u_w 180, u_w 500, u_w 164]
         (Some ORANGE) (u_stroke 24) (Some ''curve'');
     State_Monad.return img
   }"

definition icon_lyrics :: "(heap, ref) state" where
  "icon_lyrics = do {
     (img, d) \<leftarrow> u_new;
     let s = u_stroke 34;
     u_rounded_rect d (u_w 108, u_w 80, u_w 336, u_w 426) (u_w 28) (Some WHITE) s;
     line d [u_w 142, u_w 170, u_w 280, u_w 170] (Some SOFT_WHITE) (u_stroke 26) None;
     line d [u_w 142, u_w 230, u_w 280, u_w 230] (Some SOFT_WHITE) (u_stroke 26) None;
     line d [u_w 142, u_w 290, u_w 240, u_w 290] (Some SOFT_WHITE) (u_stroke 26) None;
     line d [u_w 330, u_w 174, u_w 426, u_w 142, u_w 426, u_w 288]
         (Some BLUE) (u_stroke 30) (Some ''curve'');
     ellipse d (u_w 298, u_w 300, u_w 352, u_w 354) (Some BLUE) None 1;
     ellipse d (u_w 394, u_w 268, u_w 448, u_w 322) (Some BLUE) None 1;
     State_Monad.return img
   }"

definition icon_sessions :: "(heap, ref) state" where
  "icon_sessions = do {
     (img, d) \<leftarrow> u_new;
     let s = u_stroke 30;
     u_rounded_rect d (u_w 130, u_w 132, u_w 318, u_w 390) (u_w 24) (Some SOFT_WHITE) s;
     u_rounded_rect d (u_w 176, u_w 96, u_w 364, u_w 354) (u_w 24) (Some WHITE) s;
     u_rounded_rect d (u_w 222, u_w 62, u_w 410, u_w 320) (u_w 24) (Some WHITE) s;
     line d [u_w 252, u_w 142, u_w 374, u_w 142] (Some SOFT_WHITE) (u_stroke 20) None;
     line d [u_w 252, u_w 198, u_w 360, u_w 198] (Some SOFT_WHITE) (u_stroke 20) None;
     line d [u_w 252, u_w 254, u_w 338, u_w 254] (Some SOFT_WHITE) (u_stroke 20) None;
     State_Monad.return img
   }"

definition icon_profile :: "(heap, ref) state" where
  "icon_profile = do {
     (img, d) \<leftarrow> u_new;
     let s = u_stroke 34;
     ellipse d (u_w 186, u_w 82, u_w 326, u_w 222) None (Some WHITE) s;
     rounded_rectangle d (u_w 104, u_w 236, u_w 408, u_w 412) (u_w 90) None (Some WHITE) s;
     State_Monad.return img
   }"

definition icon_live_mode :: "(heap, ref) state" where
  "icon_live_mode = do {
     (img, d) \<leftarrow> u_new;
     let s = u_stroke 32;
     u_rounded_rect d (u_w 84, u_w 138, u_w 430, u_w 346) (u_w 50) (Some WHITE) s;
     ellipse d (u_w 372, u_w 172, u_w 420, u_w 220) (Some ORANGE) None 1;
     line d [u_w 158, u_w 244, u_w 356, u_w 244] (Some SOFT_WHITE) (u_stroke 24) None;
     State_Monad.return img
   }"

definition icon_lyrics_sync :: "(heap, ref) state" where
  "icon_lyrics_sync = do {
     (img, d) \<leftarrow> u_new;
     let s = u_stroke 28;
     u_rounded_rect d (u_w 194, u_w 174, u_w 318, u_w 334) (u_w 20) (Some WHITE) s;
     arc d (u_w 70, u_w 70, u_w 442, u_w 442) 35 170 (Some WHITE) s;
     polygon d [(u_w 420, u_w 120), (u_w 462, u_w 120), (u_w 438, u_w 160)] (Some WHITE) None 1;
     arc d (u_w 70, u_w 70, u_w 442, u_w 442) 215 350 (Some WHITE) s;
     polygon d [(u_w 92, u_w 394), (u_w 132, u_w 394), (u_w 108, u_w 430)] (Some WHITE) None 1;
     State_Monad.return img
   }"

definition icon_feedback :: "bool \<Rightarrow> (heap, ref) state" where
  "icon_feedback high = do {
     (img, d) \<leftarrow> u_new;
     let base_y = u_w 390;
     let bar_w = u_w 54;
     let gap = u_w 34;
     let x = u_w 112;
     let heights = [u_w 120, u_w 170, u_w 230, u_w 280];
     let heights = (if \<not> high then [u_w 260, u_w 210, u_w 160, u_w 110] else heights);
     x \<leftarrow> for_loop (List.enumerate 0 heights) (\<lambda>(i, h) x. do {
       let color = (if (high \<and> i = 3) \<or> (\<not> high \<and> i = 0) then ORANGE else SOFT_WHITE);
       rounded_rectangle d (x, base_y - h, x + bar_w, base_y) (u_w 16) (Some color) None 1;
       State_Monad.return (x + bar_w + gap)
     }) x;
     State_Monad.return img
   }"

definition icon_mindfulness_voice :: "(heap, ref) state" where
  "icon_mindfulness_voice = do {
     (img, d) \<leftarrow> u_new;
     let s = u_stroke 34;
     ellipse d (u_w 182, u_w 92, u_w 330, u_w 248) None (Some WHITE) s;
     arc d (u_w 182, u_w 154, u_w 330, u_w 308) 20 160 (Some WHITE) s;
     line d [u_w 256, u_w 246, u_w 256, u_w 350] (Some WHITE) s None;
     arc d (u_w 174, u_w 336, u_w 338, u_w 412) 200 340 (Some WHITE) s;
     line d [u_w 350, u_w 250, u_w 382, u_w 214, u_w 414, u_w 266, u_w 452, u_w 228, u_w 490, u_w 246]
         (Some ORANGE) (u_stroke 24) (Some ''curve'');
     State_Monad.return img
   }"

definition icon_language_accent :: "(heap, ref) state" where
  "icon_language_accent = do {
     (img, d) \<leftarrow> u_new;
     let s = u_stroke 26;
     ellipse d (u_w 90, u_w 84, u_w 358, u_w 352) None (Some WHITE) s;
     arc d (u_w 120, u_w 84, u_w 328, u_w 352) 90 270 (Some SOFT_WHITE) (u_stroke 20);
     arc d (u_w 140, u_w 84, u_w 308, u_w 352) 90 270 (Some SOFT_WHITE) (u_stroke 16);
     line d [u_w 90, u_w 218, u_w 358, u_w 218] (Some SOFT_WHITE) (u_stroke 20) None;
     rounded_rectangle d (u_w 292, u_w 148, u_w 456, u_w 274) (u_w 46) None (Some WHITE) s;
     polygon d [(u_w 330, u_w 274), (u_w 300, u_w 308), (u_w 334, u_w 292)] (Some WHITE) None 1;
     for_loop [338, 374, 410 :: int] (\<lambda>x _.
       ellipse d (u_w (real_of_int x), u_w 198, u_w (real_of_int (x + 20)), u_w 218)
         (Some ORANGE) None 1
     ) ();
     State_Monad.return img
   }"

definition icon_howto :: "(heap, ref) state" where
  "icon_howto = do {
     (img, d) \<leftarrow> u_new;
     let s = u_stroke 30;
     u_rounded_rect d (u_w 110, u_w 92, u_w 402, u_w 424) (u_w 34) (Some WHITE) s;
     u_rounded_rect d (u_w 198, u_w 58, u_w 314, u_w 118) (u_w 18) (Some WHITE) (u_stroke 24);
     line d [u_w 156, u_w 192, u_w 292, u_w 192] (Some SOFT_WHITE) (u_stroke 20) None;
     line d [u_w 156, u_w 246, u_w 272, u_w 246] (Some SOFT_WHITE) (u_stroke 20) None;
     line d [u_w 156, u_w 300, u_w 292, u_w 300] (Some SOFT_WHITE) (u_stroke 20) None;
     ellipse d (u_w 286, u_w 174, u_w 404, u_w 292) None (Some WHITE) (u_stroke 20);
     polygon d [(u_w 330, u_w 208), (u_w 330, u_w 258), (u_w 372, u_w 233)] (Some BLUE) None 1;
     draw_text d (u_w 382, u_w 94) ''?'' (Some ORANGE) (LoadDefault (u_w 82));
     State_Monad.return img
   }"

definition icon_record :: "(heap, ref) state" where
  "icon_record = do {
     (img, d) \<leftarrow> u_new;
     ellipse d (u_w 108, u_w 108, u_w 404, u_w 404) None (Some RED) (u_stroke 36);
     ellipse d (u_w 194, u_w 194, u_w 318, u_w 318) (Some RED) None 1;
     State_Monad.return img
   }"

definition icon_stop :: "(heap, ref) state" where
  "icon_stop = do {
     (img, d) \<leftarrow> u_new;
     rounded_rectangle d (u_w 128, u_w 128, u_w 384, u_w 384) (u_w 76) (Some RED) None 1;
     State_Monad.return img
   }"

definition icon_metronome :: "(heap, ref) state" where
  "icon_metronome = do {
     (img, d) \<leftarrow> u_new;
     let s = u_stroke 26;
     polygon d [(u_w 256, u_w 92), (u_w 128, u_w 412), (u_w 384, u_w 412)]
         (Some (0, 0, 0, 0)) (Some WHITE) s;
     line d [u_w 256, u_w 180, u_w 338, u_w 308] (Some ORANGE) (u_stroke 24) None;
     ellipse d (u_w 324, u_w 292, u_w 362, u_w 330) (Some ORANGE) None 1;
     State_Monad.return img
   }"

definition icon_flag :: "(heap, ref) state" where
  "icon_flag = do {
     (img, d) \<leftarrow> u_new;
     let s = u_stroke 24;
     line d [u_w 146, u_w 88, u_w 146, u_w 420] (Some WHITE) s None;
     polygon d [(u_w 158, u_w 110), (u_w 376, u_w 154), (u_w 158, u_w 210)] (Some ORANGE) None 1;
     line d [u_w 146, u_w 420, u_w 222, u_w 420] (Some WHITE) s None;
     State_Monad.return img
   }"

definition icon_bpm :: "(heap, ref) state" where
  "icon_bpm = do {
     (img, d) \<leftarrow> u_new;
     let s = u_stroke 24;
     polygon d [(u_w 256, u_w 92), (u_w 144, u_w 354), (u_w 368, u_w 354)]
         (Some (0, 0, 0, 0)) (Some WHITE) s;
     line d [u_w 256, u_w 184, u_w 316, u_w 276] (Some ORANGE) (u_stroke 20) None;
     ellipse d (u_w 300, u_w 260, u_w 332, u_w 292) (Some ORANGE) None 1;
     line d [u_w 92, u_w 418, u_w 184, u_w 418, u_w 214, u_w 392, u_w 242, u_w 436, u_w 272, u_w 406, u_w 420, u_w 406]
         (Some BLUE) (u_stroke 16) (Some ''curve'');
     State_Monad.return img
   }"

definition icon_count_in :: "(heap, ref) state" where
  "icon_count_in = do {
     (img, d) \<leftarrow> u_new;
     let s = u_stroke 20;
     arc d (u_w 82, u_w 82, u_w 430, u_w 430) 300 580 (Some WHITE) s;
     for_loop (List.enumerate 1 [170, 230, 290, 350 :: int]) (\<lambda>(i, x) _. do {
       let color = (if i = 4 then ORANGE else SOFT_WHITE);
       ellipse d (u_w (real_of_int x), u_w 244, u_w (real_of_int (x + 30)), u_w 274)
         (Some color) None 1
     }) ();
     line d [u_w 256, u_w 112, u_w 256, u_w 170] (Some ORANGE) (u_stroke 16) None;
     State_Monad.return img
   }"

definition icon_lyrics_flow :: "(heap, ref) state" where
  "icon_lyrics_flow = do {
     (img, d) \<leftarrow> u_new;
     line d [u_w 98, u_w 170, u_w 290, u_w 170] (Some SOFT_WHITE) (u_stroke 24) None;
     polygon d [(u_w 290, u_w 146), (u_w 352, u_w 170), (u_w 290, u_w 194)]
         (Some SOFT_WHITE) None 1;
     line d [u_w 98, u_w 256, u_w 330, u_w 256] (Some WHITE) (u_stroke 24) None;
     polygon d [(u_w 330, u_w 230), (u_w 394, u_w 256), (u_w 330, u_w 282)] (Some BLUE) None 1;
     line d [u_w 98, u_w 340, u_w 370, u_w 340] (Some SOFT_WHITE) (u_stroke 24) None;
     polygon d [(u_w 370, u_w 314), (u_w 434, u_w 340), (u_w 370, u_w 366)] (Some ORANGE) None 1;
     State_Monad.return img
   }"

definition icon_about :: "(heap, ref) state" where
  "icon_about = do {
     (img, d) \<leftarrow> u_new;
     ellipse d (u_w 110, u_w 110, u_w 402, u_w 402) None (Some WHITE) (u_stroke 28);
     ellipse d (u_w 244, u_w 168, u_w 268, u_w 192) (Some BLUE) None 1;
     line d [u_w 256, u_w 216, u_w 256, u_w 330] (Some WHITE) (u_stroke 26) None;
     State_Monad.return img
   }"

definition icon_no_song :: "(heap, ref) state" where
  "icon_no_song = do {
     (img, d) \<leftarrow> u_new;
     u_rounded_rect d (u_w 120, u_w 96, u_w 318, u_w 394) (u_w 24) (Some SOFT_WHITE)
         (u_stroke 26);
     line d [u_w 338, u_w 170, u_w 418, u_w 144, u_w 418, u_w 258]
         (Some BLUE) (u_stroke 20) (Some ''curve'');
     ellipse d (u_w 312, u_w 274, u_w 358, u_w 320) (Some BLUE) None 1;
     line d [u_w 118, u_w 402, u_w 404, u_w 108] (Some ORANGE) (u_stroke 22) None;
     State_Monad.return img
   }"

definition icon_gender :: "bool \<Rightarrow> (heap, ref) state" where
  "icon_gender female = do {
     (img, d) \<leftarrow> u_new;
     let s = u_stroke 24;
     ellipse d (u_w 180, u_w 96, u_w 332, u_w 248) None (Some WHITE) s;
     (if female
      then arc d (u_w 158, u_w 90, u_w 354, u_w 286) 205 335 (Some BLUE) (u_stroke 30)
      else rounded_rectangle d (u_w 176, u_w 90, u_w 336, u_w 156) (u_w 26) (Some BLUE) None 1);
     rounded_rectangle d (u_w 108, u_w 252, u_w 404, u_w 418) (u_w 90) None (Some WHITE) s;
     State_Monad.return img
   }"

definition icon_beats :: "int \<Rightarrow> (heap, ref) state" where
  "icon_beats count = do {
     (img, d) \<leftarrow> u_new;
     let spacing = 70;
     let total = (count - 1) * spacing;
     let start = 256 - total div 2;
     for_loop [0..count - 1] (\<lambda>i _. do {
       let x = start + i * spacing;
       let color = (if i = count - 1 then ORANGE else SOFT_WHITE);
       ellipse d (u_w (real_of_int (x - 22)), u_w 220, u_w (real_of_int (x + 22)), u_w 264)
         (Some color) None 1
     }) ();
     line d [u_w 130, u_w 320, u_w 382, u_w 320] (Some WHITE) (u_stroke 18) None;
     State_Monad.return img
   }"

definition icon_easepocket :: "(heap, ref) state" where
  "icon_easepocket = do {
     (img, d) \<leftarrow> u_new;
     ellipse d (u_w 92, u_w 86, u_w 420, u_w 414) None (Some SOFT_WHITE) (u_stroke 20);
     line d [u_w 124, u_w 256, u_w 188, u_w 256, u_w 236, u_w 210, u_w 280, u_w 302, u_w 336, u_w 236, u_w 390, u_w 236]
         (Some BLUE) (u_stroke 20) (Some ''curve'');
     ellipse d (u_w 356, u_w 146, u_w 392, u_w 182) (Some ORANGE) None 1;
     ellipse d (u_w 140, u_w 318, u_w 170, u_w 348) (Some (120, 120, 255, 210)) None 1;
     State_Monad.return img
   }"

subsection \<open>Paths and the file tree\<close>

text \<open>
  \<^verbatim>\<open>ROOT\<close> is the repository root (the parent of the script's directory) and every path the
  scripts build lies below it. A path is kept as the list of its components below
  \<^verbatim>\<open>ROOT\<close>; \<^verbatim>\<open>relative_to(ROOT)\<close> is then the path itself, and \<open>[]\<close> is \<^verbatim>\<open>ROOT\<close>,
  an existing directory. Separators are POSIX.

  \<open>parent\<close>, \<open>name\<close>, \<open>stem\<close> and \<open>with_name\<close> follow \<^verbatim>\<open>pathlib\<close> (CPython 3.12: with
  \<^verbatim>\<open>i = name.rfind('.')\<close>, the stem is \<^verbatim>\<open>name[:i]\<close> when \<^verbatim>\<open>0 < i < len(name) - 1\<close>,
  otherwise the stem is the whole name).
\<close>

type_synonym path = "string list"

definition ASSETS :: path where "ASSETS = [''assets'', ''images'']"
definition ICON_SET :: path where "ICON_SET = ASSETS @ [''icon-set'']"

definition parent :: "path \<Rightarrow> path" where
  "parent p = butlast p"

definition name :: "path \<Rightarrow> string" where
  "name p = (if p = [] then [] else last p)"

fun as_posix :: "path \<Rightarrow> string" where
  "as_posix [] = ''.''"
| "as_posix [c] = c"
| "as_posix (c # cs) = c @ ''/'' @ as_posix cs"

definition rfind :: "string \<Rightarrow> char \<Rightarrow> int" where
  "rfind s c =
     (if c \<in> set s then int (length s) - 1 - int (length (takeWhile (\<lambda>x. x \<noteq> c) (rev s)))
      else - 1)"

definition stem :: "string \<Rightarrow> string" where
  "stem nm =
     (let i = rfind nm (CHR ''.'')
      in if 0 < i \<and> i < int (length nm) - 1 then take (nat i) nm else nm)"

definition startswith :: "string \<Rightarrow> string \<Rightarrow> bool" where
  "startswith s p = prefix p s"

definition endswith :: "string \<Rightarrow> string \<Rightarrow> bool" where
  "endswith s p = suffix p s"

datatype error =
    FileExistsError
  | FileNotFoundError
  | NotADirectoryError
  | IsADirectoryError
  | UnidentifiedImageError
  | SameFileError
  | OSError
  | ValueError
  | ZeroDivisionError

definition with_name :: "path \<Rightarrow> string \<Rightarrow> error + path" where
  "with_name p nm = (if p = [] then Inl ValueError else Inr (butlast p @ [nm]))"

datatype 'a node = Dir | File 'a

type_synonym 'a tree = "path \<Rightarrow> 'a node option"

definition is_dir :: "'a tree \<Rightarrow> path \<Rightarrow> bool" where
  "is_dir fs p = (p = [] \<or> fs p = Some Dir)"

text \<open>
  \<^verbatim>\<open>mkdir(parents=True, exist_ok=True)\<close>: every missing directory on the way down to the
  path is created, an existing directory is accepted, and a regular file in the way is
  an error (\<^verbatim>\<open>FileExistsError\<close> at the path itself, \<^verbatim>\<open>NotADirectoryError\<close> above it).
  Permissions and full disks are not modelled.
\<close>

fun mkdirs :: "path \<Rightarrow> string list \<Rightarrow> 'a tree \<Rightarrow> error + 'a tree" where
  "mkdirs base [] fs = Inr fs"
| "mkdirs base (c # cs) fs =
     (case fs (base @ [c]) of
        Some Dir \<Rightarrow> mkdirs (base @ [c]) cs fs
      | Some (File _) \<Rightarrow> Inl (if cs = [] then FileExistsError else NotADirectoryError)
      | None \<Rightarrow> mkdirs (base @ [c]) cs (fs(base @ [c] \<mapsto> Dir)))"

definition mkdir :: "path \<Rightarrow> 'a tree \<Rightarrow> error + 'a tree" where
  "mkdir p fs = mkdirs [] p fs"

subsection \<open>Downsample and persist\<close>

text \<open>
  \<^verbatim>\<open>img.resize(size, resample)\<close> returns a new image of the requested size and of the
  mode of its source; its pixels are the resampling of the source's, which the model
  keeps as the filter and the source image.

  \<^verbatim>\<open>out.save(target)\<close> first selects the file format from the extension of the target's
  name, \<^verbatim>\<open>os.path.splitext(name)[1]\<close> (the part from the last dot on, empty when only dots
  precede it), and raises \<^verbatim>\<open>ValueError\<close> when no format is registered for it; it then
  opens the file for writing; then the writer of the format encodes the image, raising
  \<^verbatim>\<open>OSError\<close> when it cannot write the image's mode. Pillow's registry and writers are
  not part of the repository. What the generator relies on is fixed here: the extension
  \<^verbatim>\<open>.png\<close> selects the format \<^verbatim>\<open>PNG\<close>, whose writer accepts \<^verbatim>\<open>RGBA\<close> images. Everything
  else Pillow may or may not do is a parameter: \<open>sv_format\<close> is the registry on the other
  extensions (as Pillow lower-cases them), \<open>sv_accepts\<close> tells whether the writer of a
  format accepts a mode. The content written is kept as the extension (which fixes the
  format) with the image encoded.
\<close>

datatype resampling = NEAREST | BOX | BILINEAR | HAMMING | BICUBIC | LANCZOS

record resized =
  rs_mode :: string
  rs_size :: "int \<times> int"
  rs_resample :: resampling
  rs_source :: image

definition resize :: "image \<Rightarrow> int \<times> int \<Rightarrow> resampling \<Rightarrow> resized" where
  "resize img sz r = \<lparr>rs_mode = im_mode img, rs_size = sz, rs_resample = r, rs_source = img\<rparr>"

datatype encoded = Encoded string resized

definition splitext_ext :: "string \<Rightarrow> string" where
  "splitext_ext nm =
     (let i = rfind nm (CHR ''.'')
      in if 0 \<le> i \<and> (\<exists>c\<in>set (take (nat i) nm). c \<noteq> CHR ''.'') then drop (nat i) nm else [])"

record pillow_save =
  sv_format :: "string \<Rightarrow> string option"
  sv_accepts :: "string \<Rightarrow> string \<Rightarrow> bool"

definition save_format :: "pillow_save \<Rightarrow> string \<Rightarrow> string option" where
  "save_format S ext = (if ext = ''.png'' then Some ''PNG'' else sv_format S ext)"

definition save_accepts :: "pillow_save \<Rightarrow> string \<Rightarrow> string \<Rightarrow> bool" where
  "save_accepts S fmt mode =
     (if fmt = ''PNG'' \<and> mode = ''RGBA'' then True else sv_accepts S fmt mode)"

definition Image_save ::
  "pillow_save \<Rightarrow> resized \<Rightarrow> path \<Rightarrow> encoded tree \<Rightarrow> error + encoded tree" where
  "Image_save S out target fs =
     (case save_format S (splitext_ext (name target)) of
        None \<Rightarrow> Inl ValueError
      | Some fmt \<Rightarrow>
          if is_dir fs target then Inl IsADirectoryError
          else if \<not> is_dir fs (parent target)
            then (if fs (parent target) = None then Inl FileNotFoundError
                  else Inl NotADirectoryError)
          else if \<not> save_accepts S fmt (rs_mode out) then Inl OSError
          else Inr (fs(target \<mapsto> File (Encoded (splitext_ext (name target)) out))))"

definition u_save ::
  "pillow_save \<Rightarrow> image \<Rightarrow> path \<Rightarrow> encoded tree \<Rightarrow> error + encoded tree" where
  "u_save S img target fs =
     (case mkdir (parent target) fs of
        Inl e \<Rightarrow> Inl e
      | Inr fs1 \<Rightarrow> (let out = resize img (SIZE, SIZE) LANCZOS in Image_save S out target fs1))"

subsection \<open>Catalog registry and entry point\<close>

definition ICON_BUILD :: "(path \<times> (heap, ref) state) list" where
  "ICON_BUILD = [
     (ICON_SET @ [''Singing.png''], icon_singing),
     (ICON_SET @ [''Lyrics.png''], icon_lyrics),
     (ICON_SET @ [''sessions.png''], icon_sessions),
     (ICON_SET @ [''Profile.png''], icon_profile),
     (ICON_SET @ [''Live_mode.png''], icon_live_mode),
     (ICON_SET @ [''Lyrics_sync.png''], icon_lyrics_sync),
     (ICON_SET @ [''Feedback_intensity_high.png''], icon_feedback True),
     (ICON_SET @ [''Feedback_intensity_low.png''], icon_feedback False),
     (ICON_SET @ [''Mindfullness_voice.png''], icon_mindfulness_voice),
     (ICON_SET @ [''Language_accent.png''], icon_language_accent),
     (ICON_SET @ [''howto-icon.png''], icon_howto),
     (ASSETS @ [''record_icon.png''], icon_record),
     (ASSETS @ [''Stop_icon.png''], icon_stop),
     (ASSETS @ [''metronome_icon.png''], icon_metronome),
     (ASSETS @ [''flag_icon.png''], icon_flag),
     (ASSETS @ [''bpm_icon.png''], icon_bpm),
     (ASSETS @ [''count_in_icon.png''], icon_count_in),
     (ASSETS @ [''lyrics_flow_speed_icon.png''], icon_lyrics_flow),
     (ASSETS @ [''about_icon.png''], icon_about),
     (ASSETS @ [''nosong_state.png''], icon_no_song),
     (ASSETS @ [''Female.png''], icon_gender True),
     (ASSETS @ [''Male.png''], icon_gender False),
     (ASSETS @ [''two_beats.png''], icon_beats 2),
     (ASSETS @ [''four_beats.png''], icon_beats 4),
     (ASSETS @ [''EasePocket.png''], icon_easepocket)
   ]"

text \<open>
  The state of a run: the heap of image objects, the file tree below \<^verbatim>\<open>ROOT\<close> and the
  lines printed so far. An exception ends the run: the result is then the error.
\<close>

record world =
  w_heap :: heap
  w_files :: "encoded tree"
  w_stdout :: "string list"

fun run_entries ::
  "pillow_save \<Rightarrow> (path \<times> (heap, ref) state) list \<Rightarrow> world \<Rightarrow> error + world" where
  "run_entries S [] w = Inr w"
| "run_entries S ((target, builder) # rest) w =
     (case run_state builder (w_heap w) of
        (img, h) \<Rightarrow>
          (case u_save S (h ! img) target (w_files w) of
             Inl e \<Rightarrow> Inl e
           | Inr fs \<Rightarrow>
               run_entries S rest
                 \<lparr>w_heap = h, w_files = fs,
                  w_stdout = w_stdout w @ [''generated '' @ as_posix target]\<rparr>))"

definition main :: "pillow_save \<Rightarrow> world \<Rightarrow> error + world" where
  "main S w = run_entries S ICON_BUILD w"

text \<open>
  The canvas a builder returns, observed by running it in an empty heap. (That the same
  canvas comes out in every heap is a theorem, not part of this definition.)
\<close>

definition canvas :: "(heap, ref) state \<Rightarrow> image" where
  "canvas b = (case run_state b [] of (img, h) \<Rightarrow> h ! img)"

text \<open>
  When a save can succeed. \<open>dirs_to p\<close> lists the directories from just below \<^verbatim>\<open>ROOT\<close>
  down to \<open>p\<close> itself. A target is writable when it is not \<^verbatim>\<open>ROOT\<close>, is not a directory,
  and no regular file stands where one of the directories above it has to be. An image
  can be encoded at a target when a format is registered for the extension of the
  target's name and the writer of that format accepts the mode of the image.
\<close>

fun dirs_to :: "path \<Rightarrow> path list" where
  "dirs_to [] = []"
| "dirs_to (c # cs) = [c] # map ((#) c) (dirs_to cs)"

definition is_file :: "'a tree \<Rightarrow> path \<Rightarrow> bool" where
  "is_file fs p = (case fs p of Some (File _) \<Rightarrow> True | _ \<Rightarrow> False)"

definition writable :: "'a tree \<Rightarrow> path \<Rightarrow> bool" where
  "writable fs target \<longleftrightarrow>
     target \<noteq> [] \<and> \<not> is_dir fs target \<and> (\<forall>q\<in>set (dirs_to (parent target)). \<not> is_file fs q)"

definition can_encode :: "pillow_save \<Rightarrow> image \<Rightarrow> path \<Rightarrow> bool" where
  "can_encode S img target =
     (case save_format S (splitext_ext (name target)) of
        None \<Rightarrow> False
      | Some fmt \<Rightarrow> save_accepts S fmt (im_mode img))"

text \<open>The node a successful \<^verbatim>\<open>_save\<close> of an image leaves at its target.\<close>

definition saved :: "path \<Rightarrow> image \<Rightarrow> encoded node" where
  "saved t img = File (Encoded (splitext_ext (name t)) (resize img (SIZE, SIZE) LANCZOS))"

text \<open>
  Observations on drawing calls, used to state what a canvas shows: whether a call is an
  ellipse, its fill, its bounding box, and \<open>centre2\<close>, the sums of the opposite edges of
  the box (twice the coordinates of its centre, in canvas units). The markers of a canvas
  are the ellipses among its calls, in drawing order.
\<close>

fun is_ellipse :: "draw_call \<Rightarrow> bool" where
  "is_ellipse (Ellipse xy fill outline width) = True"
| "is_ellipse _ = False"

fun fill_of :: "draw_call \<Rightarrow> rgba option" where
  "fill_of (Ellipse xy fill outline width) = fill"
| "fill_of (Arc xy start stop fill width) = fill"
| "fill_of (Line xy fill width joint) = fill"
| "fill_of (Polygon xy fill outline width) = fill"
| "fill_of (RoundedRectangle xy radius fill outline width) = fill"
| "fill_of (Text xy txt fill fnt) = fill"

fun box_of :: "draw_call \<Rightarrow> box option" where
  "box_of (Ellipse xy fill outline width) = Some xy"
| "box_of (Arc xy start stop fill width) = Some xy"
| "box_of (RoundedRectangle xy radius fill outline width) = Some xy"
| "box_of _ = None"

definition centre2 :: "draw_call \<Rightarrow> (int \<times> int) option" where
  "centre2 c = map_option (\<lambda>(x0, y0, x1, y1). (x0 + x1, y0 + y1)) (box_of c)"

definition markers :: "image \<Rightarrow> draw_call list" where
  "markers img = filter is_ellipse (im_calls img)"

section \<open>The web asset optimizer (scripts/optimize_web_assets.py)\<close>

subsection \<open>Source selection\<close>

definition IMAGES_ROOT :: path where "IMAGES_ROOT = [''assets'', ''images'']"

definition SKIP_PREFIXES :: "string set" where
  "SKIP_PREFIXES = {''assets/images/web/''}"

definition SKIP_EXACT :: "string set" where
  "SKIP_EXACT = {
     ''assets/images/android-icon-background.png'',
     ''assets/images/android-icon-foreground.png'',
     ''assets/images/android-icon-monochrome.png''
   }"

definition should_process :: "path \<Rightarrow> bool" where
  "should_process p =
     (let rel = as_posix p
      in if (\<exists>pre\<in>SKIP_PREFIXES. startswith rel pre) then False
         else if rel \<in> SKIP_EXACT then False
         else if endswith (name p) ''.web.png'' then False
         else True)"

text \<open>
  The optimizer's file tree is an association list from paths to nodes, in the order
  the directory scan happens to yield them; a file's content is its bytes.
  \<^verbatim>\<open>IMAGES_ROOT.rglob("*.png")\<close> yields every path below \<^verbatim>\<open>IMAGES_ROOT\<close> whose last
  component matches \<^verbatim>\<open>*.png\<close> (case-sensitively, as on POSIX), whatever kind of node it is.
  \<^verbatim>\<open>sorted\<close> orders paths component by component, components by code point.
\<close>

type_synonym bytes = "nat list"

type_synonym asset_tree = "(path \<times> bytes node) list"

definition rglob_png :: "path \<Rightarrow> asset_tree \<Rightarrow> path list" where
  "rglob_png base fs = [p \<leftarrow> map fst fs. strict_prefix base p \<and> endswith (name p) ''.png'']"

definition discover_sources :: "asset_tree \<Rightarrow> path list" where
  "discover_sources fs =
     (let sources = [p \<leftarrow> rglob_png IMAGES_ROOT fs. should_process p]
      in sort sources)"

subsection \<open>Re-encoding with the size guard\<close>

text \<open>
  Pillow's decoder and PNG writer are not part of the repository; they are parameters.
  \<open>pil_open\<close> is \<^verbatim>\<open>Image.open\<close> on the bytes of a file (\<open>None\<close> when Pillow cannot identify
  them as an image); it reads the header only, so a decoded picture has its bands
  (\<^verbatim>\<open>getbands()\<close>) while its pixel data is still to be loaded. \<^verbatim>\<open>image.convert(mode)\<close>
  loads the pixel data and can raise on it (a truncated file that \<^verbatim>\<open>Image.open\<close> accepted):
  \<open>pil_converts\<close> tells whether it answers, and \<open>Convert pic mode\<close> is then its result.
  \<open>pil_save_png\<close> gives the bytes that
  \<^verbatim>\<open>save(dst, format="PNG", optimize=True, compress_level=9)\<close> writes for a converted
  picture, or \<open>None\<close> when the writer raises. \<^verbatim>\<open>save\<close> opens the destination for writing
  before it encodes. What Pillow raises while loading or encoding is kept as \<^verbatim>\<open>OSError\<close>,
  the class of its decoding and encoding errors.
\<close>

record picture =
  pic_bands :: "string list"
  pic_data :: "nat list"

datatype converted = Convert picture string

record pil =
  pil_open :: "bytes \<Rightarrow> picture option"
  pil_converts :: "picture \<Rightarrow> string \<Rightarrow> bool"
  pil_save_png :: "converted \<Rightarrow> bytes option"

definition convert :: "pil \<Rightarrow> picture \<Rightarrow> string \<Rightarrow> error + converted" where
  "convert P pic mode = (if pil_converts P pic mode then Inr (Convert pic mode) else Inl OSError)"

definition stat_size :: "asset_tree \<Rightarrow> path \<Rightarrow> error + nat" where
  "stat_size fs p =
     (case map_of fs p of
        None \<Rightarrow> Inl FileNotFoundError
      | Some Dir \<Rightarrow> Inl IsADirectoryError
      | Some (File content) \<Rightarrow> Inr (length content))"

definition write_bytes :: "path \<Rightarrow> bytes \<Rightarrow> asset_tree \<Rightarrow> error + asset_tree" where
  "write_bytes p content fs =
     (if map_of fs p = Some Dir then Inl IsADirectoryError
      else Inr (AList.update p (File content) fs))"

definition save_png :: "pil \<Rightarrow> converted \<Rightarrow> path \<Rightarrow> asset_tree \<Rightarrow> error + asset_tree" where
  "save_png P optimized dst fs =
     (if map_of fs dst = Some Dir then Inl IsADirectoryError
      else case pil_save_png P optimized of
             None \<Rightarrow> Inl OSError
           | Some content \<Rightarrow> write_bytes dst content fs)"

definition copyfile :: "path \<Rightarrow> path \<Rightarrow> asset_tree \<Rightarrow> error + asset_tree" where
  "copyfile src dst fs =
     (if src = dst then Inl SameFileError
      else case map_of fs src of
        None \<Rightarrow> Inl FileNotFoundError
      | Some Dir \<Rightarrow> Inl IsADirectoryError
      | Some (File content) \<Rightarrow> write_bytes dst content fs)"

text \<open>
  \<^verbatim>\<open>optimize\<close>. The source is read twice before anything is written (\<^verbatim>\<open>stat\<close>, then
  \<^verbatim>\<open>Image.open\<close>); the model looks its node up once: a missing source fails at
  \<^verbatim>\<open>stat\<close>, a directory at \<^verbatim>\<open>Image.open\<close>, whose \<^verbatim>\<open>st_size\<close> is never used. An exception
  ends the call: the result is then the error.
\<close>

definition optimize ::
  "pil \<Rightarrow> path \<Rightarrow> asset_tree \<Rightarrow> error + ((path \<times> nat \<times> nat) \<times> asset_tree)" where
  "optimize P src fs =
     (case with_name src (stem (name src) @ ''.web.png'') of
        Inl e \<Rightarrow> Inl e
      | Inr dst \<Rightarrow>
         (case map_of fs src of
            None \<Rightarrow> Inl FileNotFoundError
          | Some Dir \<Rightarrow> Inl IsADirectoryError
          | Some (File content) \<Rightarrow>
             (let before = length content
              in case pil_open P content of
                   None \<Rightarrow> Inl UnidentifiedImageError
                 | Some pic \<Rightarrow>
                    (case (if ''A'' \<in> set (pic_bands pic) then convert P pic ''RGBA''
                           else convert P pic ''RGB'') of
                       Inl e \<Rightarrow> Inl e
                     | Inr optimized \<Rightarrow>
                        (case save_png P optimized dst fs of
                           Inl e \<Rightarrow> Inl e
                         | Inr fs1 \<Rightarrow>
                            (case stat_size fs1 dst of
                               Inl e \<Rightarrow> Inl e
                             | Inr after \<Rightarrow>
                                if after > before
                                then (case copyfile src dst fs1 of
                                        Inl e \<Rightarrow> Inl e
                                      | Inr fs2 \<Rightarrow>
                                         (case stat_size fs2 dst of
                                            Inl e \<Rightarrow> Inl e
                                          | Inr after2 \<Rightarrow> Inr ((dst, before, after2), fs2)))
                                else Inr ((dst, before, after), fs1)))))))"

subsection \<open>The report\<close>

text \<open>
  Python's \<^verbatim>\<open>/\<close> raises \<^verbatim>\<open>ZeroDivisionError\<close> on a zero divisor. The quotient of two
  sizes is a float; the model computes it exactly, in the reals.
  A printed line is kept as its fields: the two relative paths, the sizes in bytes
  and the reduction (the number that \<^verbatim>\<open>.1f\<close> then rounds to one decimal); the
  formatting of sizes by \<^verbatim>\<open>human_size\<close> is not modelled.
\<close>

definition truediv :: "nat \<Rightarrow> nat \<Rightarrow> error + real" where
  "truediv a b = (if b = 0 then Inl ZeroDivisionError else Inr (real a / real b))"

datatype out_line =
    Header
  | FileLine string string nat nat real
  | TotalLine nat nat nat real

fun run_loop ::
  "pil \<Rightarrow> path list \<Rightarrow> nat \<times> nat \<times> nat \<Rightarrow> asset_tree \<times> out_line list
     \<Rightarrow> error + ((nat \<times> nat \<times> nat) \<times> asset_tree \<times> out_line list)" where
  "run_loop P [] (total_before, total_after, count) (fs, out) =
     Inr ((total_before, total_after, count), (fs, out))"
| "run_loop P (src # rest) (total_before, total_after, count) (fs, out) =
     (case optimize P src fs of
        Inl e \<Rightarrow> Inl e
      | Inr ((dst, before, after), fs') \<Rightarrow>
         (case (if before = 0 then Inr 0
                else case truediv after before of
                       Inl e \<Rightarrow> Inl e
                     | Inr q \<Rightarrow> Inr ((1 - q) * 100)) of
            Inl e \<Rightarrow> Inl e
          | Inr reduction \<Rightarrow>
             run_loop P rest (total_before + before, total_after + after, count + 1)
               (fs', out @ [FileLine (as_posix src) (as_posix dst) before after reduction])))"

definition run ::
  "pil \<Rightarrow> path list \<Rightarrow> asset_tree \<times> out_line list
     \<Rightarrow> error + (int \<times> asset_tree \<times> out_line list)" where
  "run P sources st =
     (case st of
        (fs, out) \<Rightarrow>
         (case run_loop P sources (0, 0, 0) (fs, out @ [Header]) of
            Inl e \<Rightarrow> Inl e
          | Inr ((total_before, total_after, count), (fs', out')) \<Rightarrow>
             (case (if total_before = 0 then Inr 0
                    else case truediv total_after total_before of
                           Inl e \<Rightarrow> Inl e
                         | Inr q \<Rightarrow> Inr ((1 - q) * 100)) of
                Inl e \<Rightarrow> Inl e
              | Inr total_reduction \<Rightarrow>
                 Inr (0, fs',
                      out' @ [TotalLine count total_before total_after total_reduction]))))"

definition optimizer_main :: "pil \<Rightarrow> asset_tree \<Rightarrow> error + (int \<times> asset_tree \<times> out_line list)" where
  "optimizer_main P fs = run P (discover_sources fs) (fs, [])"

section \<open>Properties of the icon generator\<close>

subsection \<open>Coordinate scaler\<close>

lemma u_w_of_int: "u_w (of_int n) = 4 * n"
proof -
  have "real_of_int n * 4 = of_int (n * 4)" by simp
  then show ?thesis
    unfolding u_w_def py_int_def SCALE_def
    by (simp only: of_int_numeral floor_of_int ceiling_of_int if_cancel mult.commute)
qed

lemma u_w_numeral [simp]: "u_w (numeral k) = 4 * numeral k"
  using u_w_of_int [of "numeral k"] by simp

lemma py_int_abs_le: "\<bar>real_of_int (py_int x)\<bar> \<le> \<bar>x\<bar>"
proof (cases "0 \<le> x")
  case True
  then have "0 \<le> \<lfloor>x\<rfloor>" by simp
  with True show ?thesis unfolding py_int_def by simp
next
  case False
  then have "\<lceil>x\<rceil> \<le> 0" by (simp add: ceiling_le_iff)
  moreover have "x \<le> real_of_int \<lceil>x\<rceil>" by (rule le_of_int_ceiling)
  ultimately show ?thesis using False unfolding py_int_def by simp
qed

lemma py_int_near: "\<bar>x - real_of_int (py_int x)\<bar> < 1"
proof (cases "0 \<le> x")
  case True
  then show ?thesis unfolding py_int_def by simp linarith
next
  case False
  then show ?thesis unfolding py_int_def by simp linarith
qed

lemma py_int_Ints: "x \<in> \<int> \<Longrightarrow> py_int x = round x"
  unfolding py_int_def by (auto elim!: Ints_cases)

text \<open>
  C1 as stated fails: the scaler does not round to the nearest integer. At the logical
  length \<open>v = 3/16\<close> (a float, exactly) the product \<open>4 * v\<close> is \<open>0.75\<close>; \<^verbatim>\<open>int\<close> gives
  \<open>0\<close>, the nearest integer is \<open>1\<close>.
\<close>

theorem C1_scaler_not_round:
  "u_w (3 / 16) = 0 \<and> round ((3 / 16 :: real) * real_of_int SCALE) = 1"
  by (simp add: u_w_def py_int_def SCALE_def round_def)

text \<open>
  C1, amended: for every logical coordinate or length \<open>v\<close> the scaler (and the stroke
  scaler, which is the same function) returns \<^verbatim>\<open>int(v * 4)\<close>, that is \<open>4 * v\<close> truncated
  toward zero: the floor for \<open>v \<ge> 0\<close>, the ceiling for \<open>v < 0\<close>, never larger in
  magnitude than \<open>4 * v\<close> and less than \<open>1\<close> away from it. It is the nearest integer
  whenever \<open>4 * v\<close> is itself an integer, in particular for every integer \<open>v\<close> (all the
  builders pass), where the result is exactly \<open>4 * v\<close>.
\<close>

theorem C1_scaler_truncates:
  "u_w v = (if 0 \<le> v then \<lfloor>v * 4\<rfloor> else \<lceil>v * 4\<rceil>)
   \<and> u_stroke v = u_w v
   \<and> \<bar>real_of_int (u_w v)\<bar> \<le> \<bar>v * 4\<bar>
   \<and> \<bar>v * 4 - real_of_int (u_w v)\<bar> < 1
   \<and> (v * 4 \<in> \<int> \<longrightarrow> u_w v = round (v * 4))
   \<and> u_w (real_of_int n) = 4 * n"
proof -
  have scale: "v * real_of_int SCALE = v * 4" by (simp add: SCALE_def)
  have "u_w v = (if 0 \<le> v then \<lfloor>v * 4\<rfloor> else \<lceil>v * 4\<rceil>)"
    unfolding u_w_def py_int_def scale by (simp add: zero_le_mult_iff)
  moreover have "u_stroke v = u_w v" by (simp add: u_stroke_def)
  moreover have "\<bar>real_of_int (u_w v)\<bar> \<le> \<bar>v * 4\<bar>"
    unfolding u_w_def scale by (rule py_int_abs_le)
  moreover have "\<bar>v * 4 - real_of_int (u_w v)\<bar> < 1"
    unfolding u_w_def scale by (rule py_int_near)
  moreover have "v * 4 \<in> \<int> \<longrightarrow> u_w v = round (v * 4)"
    unfolding u_w_def scale by (simp add: py_int_Ints)
  moreover have "u_w (real_of_int n) = 4 * n" by (rule u_w_of_int)
  ultimately show ?thesis by blast
qed

text \<open>
  The amended C1 at \<open>v = 3/4\<close>, where \<open>4 * v = 3\<close> is an integer, and at the integer
  \<open>v = 42\<close>.
\<close>

theorem C1_scaler_truncates_witness:
  "u_w (3 / 4) = 3 \<and> round ((3 / 4 :: real) * 4) = 3 \<and> u_w 42 = 168"
  using C1_scaler_truncates [of "3 / 4" 42] by simp

subsection \<open>Builders allocate one canvas and touch nothing else\<close>

lemma run_Image_new [simp]:
  "run_state (Image_new m sz c) h =
     (length h, h @ [\<lparr>im_mode = m, im_size = sz, im_color = c, im_calls = []\<rparr>])"
  by (simp add: Image_new_def)

lemma run_paint_last [simp]:
  "run_state (paint (length h) c) (h @ [img]) =
     ((), h @ [img\<lparr>im_calls := im_calls img @ [c]\<rparr>])"
  by (simp add: paint_def State_Monad.update_def)

lemma run_paint_single [simp]:
  "run_state (paint 0 c) [img] = ((), [img\<lparr>im_calls := im_calls img @ [c]\<rparr>])"
  using run_paint_last [of "[]" c img] by simp

lemma run_for_loop_paint:
  "run_state (for_loop xs (\<lambda>x _. paint (length h) (g x)) ()) (h @ [img]) =
     ((), h @ [img\<lparr>im_calls := im_calls img @ map g xs\<rparr>])"
  by (induction xs arbitrary: img) simp_all

lemma run_for_loop_paint_single:
  "run_state (for_loop xs (\<lambda>x _. paint 0 (g x)) ()) [img] =
     ((), [img\<lparr>im_calls := im_calls img @ map g xs\<rparr>])"
  using run_for_loop_paint [of xs "[]" g img] by simp

lemmas draw_defs =
  u_new_def ellipse_def arc_def line_def polygon_def rounded_rectangle_def draw_text_def
  u_rounded_rect_def u_stroke_def

text \<open>
  Run in any heap, a builder returns a reference to one new object, appended to the
  heap, and leaves every other object as it was; the new object is the canvas the
  builder yields in the empty heap: an RGBA image of side \<open>CANVAS\<close>, created transparent.
\<close>

lemma icon_singing_builds:
  "run_state icon_singing h = (length h, h @ [canvas icon_singing])"
  "im_mode (canvas icon_singing) = ''RGBA''"
  "im_size (canvas icon_singing) = (CANVAS, CANVAS)"
  "im_color (canvas icon_singing) = (0, 0, 0, 0)"
  by (simp_all add: canvas_def icon_singing_def draw_defs)

lemma icon_lyrics_builds:
  "run_state icon_lyrics h = (length h, h @ [canvas icon_lyrics])"
  "im_mode (canvas icon_lyrics) = ''RGBA''"
  "im_size (canvas icon_lyrics) = (CANVAS, CANVAS)"
  "im_color (canvas icon_lyrics) = (0, 0, 0, 0)"
  by (simp_all add: canvas_def icon_lyrics_def draw_defs)

lemma icon_sessions_builds:
  "run_state icon_sessions h = (length h, h @ [canvas icon_sessions])"
  "im_mode (canvas icon_sessions) = ''RGBA''"
  "im_size (canvas icon_sessions) = (CANVAS, CANVAS)"
  "im_color (canvas icon_sessions) = (0, 0, 0, 0)"
  by (simp_all add: canvas_def icon_sessions_def draw_defs)

lemma icon_profile_builds:
  "run_state icon_profile h = (length h, h @ [canvas icon_profile])"
  "im_mode (canvas icon_profile) = ''RGBA''"
  "im_size (canvas icon_profile) = (CANVAS, CANVAS)"
  "im_color (canvas icon_profile) = (0, 0, 0, 0)"
  by (simp_all add: canvas_def icon_profile_def draw_defs)

lemma icon_live_mode_builds:
  "run_state icon_live_mode h = (length h, h @ [canvas icon_live_mode])"
  "im_mode (canvas icon_live_mode) = ''RGBA''"
  "im_size (canvas icon_live_mode) = (CANVAS, CANVAS)"
  "im_color (canvas icon_live_mode) = (0, 0, 0, 0)"
  by (simp_all add: canvas_def icon_live_mode_def draw_defs)

lemma icon_lyrics_sync_builds:
  "run_state icon_lyrics_sync h = (length h, h @ [canvas icon_lyrics_sync])"
  "im_mode (canvas icon_lyrics_sync) = ''RGBA''"
  "im_size (canvas icon_lyrics_sync) = (CANVAS, CANVAS)"
  "im_color (canvas icon_lyrics_sync) = (0, 0, 0, 0)"
  by (simp_all add: canvas_def icon_lyrics_sync_def draw_defs)

lemma icon_feedback_builds:
  "run_state (icon_feedback high) h = (length h, h @ [canvas (icon_feedback high)])"
  "im_mode (canvas (icon_feedback high)) = ''RGBA''"
  "im_size (canvas (icon_feedback high)) = (CANVAS, CANVAS)"
  "im_color (canvas (icon_feedback high)) = (0, 0, 0, 0)"
  by (cases high) (simp_all add: canvas_def icon_feedback_def draw_defs)

lemma icon_mindfulness_voice_builds:
  "run_state icon_mindfulness_voice h = (length h, h @ [canvas icon_mindfulness_voice])"
  "im_mode (canvas icon_mindfulness_voice) = ''RGBA''"
  "im_size (canvas icon_mindfulness_voice) = (CANVAS, CANVAS)"
  "im_color (canvas icon_mindfulness_voice) = (0, 0, 0, 0)"
  by (simp_all add: canvas_def icon_mindfulness_voice_def draw_defs)

lemma icon_language_accent_builds:
  "run_state icon_language_accent h = (length h, h @ [canvas icon_language_accent])"
  "im_mode (canvas icon_language_accent) = ''RGBA''"
  "im_size (canvas icon_language_accent) = (CANVAS, CANVAS)"
  "im_color (canvas icon_language_accent) = (0, 0, 0, 0)"
  by (simp_all add: canvas_def icon_language_accent_def draw_defs)

lemma icon_howto_builds:
  "run_state icon_howto h = (length h, h @ [canvas icon_howto])"
  "im_mode (canvas icon_howto) = ''RGBA''"
  "im_size (canvas icon_howto) = (CANVAS, CANVAS)"
  "im_color (canvas icon_howto) = (0, 0, 0, 0)"
  by (simp_all add: canvas_def icon_howto_def draw_defs)

lemma icon_record_builds:
  "run_state icon_record h = (length h, h @ [canvas icon_record])"
  "im_mode (canvas icon_record) = ''RGBA''"
  "im_size (canvas icon_record) = (CANVAS, CANVAS)"
  "im_color (canvas icon_record) = (0, 0, 0, 0)"
  by (simp_all add: canvas_def icon_record_def draw_defs)

lemma icon_stop_builds:
  "run_state icon_stop h = (length h, h @ [canvas icon_stop])"
  "im_mode (canvas icon_stop) = ''RGBA''"
  "im_size (canvas icon_stop) = (CANVAS, CANVAS)"
  "im_color (canvas icon_stop) = (0, 0, 0, 0)"
  by (simp_all add: canvas_def icon_stop_def draw_defs)

lemma icon_metronome_builds:
  "run_state icon_metronome h = (length h, h @ [canvas icon_metronome])"
  "im_mode (canvas icon_metronome) = ''RGBA''"
  "im_size (canvas icon_metronome) = (CANVAS, CANVAS)"
  "im_color (canvas icon_metronome) = (0, 0, 0, 0)"
  by (simp_all add: canvas_def icon_metronome_def draw_defs)

lemma icon_flag_builds:
  "run_state icon_flag h = (length h, h @ [canvas icon_flag])"
  "im_mode (canvas icon_flag) = ''RGBA''"
  "im_size (canvas icon_flag) = (CANVAS, CANVAS)"
  "im_color (canvas icon_flag) = (0, 0, 0, 0)"
  by (simp_all add: canvas_def icon_flag_def draw_defs)

lemma icon_bpm_builds:
  "run_state icon_bpm h = (length h, h @ [canvas icon_bpm])"
  "im_mode (canvas icon_bpm) = ''RGBA''"
  "im_size (canvas icon_bpm) = (CANVAS, CANVAS)"
  "im_color (canvas icon_bpm) = (0, 0, 0, 0)"
  by (simp_all add: canvas_def icon_bpm_def draw_defs)

lemma icon_count_in_builds:
  "run_state icon_count_in h = (length h, h @ [canvas icon_count_in])"
  "im_mode (canvas icon_count_in) = ''RGBA''"
  "im_size (canvas icon_count_in) = (CANVAS, CANVAS)"
  "im_color (canvas icon_count_in) = (0, 0, 0, 0)"
  by (simp_all add: canvas_def icon_count_in_def draw_defs)

lemma icon_lyrics_flow_builds:
  "run_state icon_lyrics_flow h = (length h, h @ [canvas icon_lyrics_flow])"
  "im_mode (canvas icon_lyrics_flow) = ''RGBA''"
  "im_size (canvas icon_lyrics_flow) = (CANVAS, CANVAS)"
  "im_color (canvas icon_lyrics_flow) = (0, 0, 0, 0)"
  by (simp_all add: canvas_def icon_lyrics_flow_def draw_defs)

lemma icon_about_builds:
  "run_state icon_about h = (length h, h @ [canvas icon_about])"
  "im_mode (canvas icon_about) = ''RGBA''"
  "im_size (canvas icon_about) = (CANVAS, CANVAS)"
  "im_color (canvas icon_about) = (0, 0, 0, 0)"
  by (simp_all add: canvas_def icon_about_def draw_defs)

lemma icon_no_song_builds:
  "run_state icon_no_song h = (length h, h @ [canvas icon_no_song])"
  "im_mode (canvas icon_no_song) = ''RGBA''"
  "im_size (canvas icon_no_song) = (CANVAS, CANVAS)"
  "im_color (canvas icon_no_song) = (0, 0, 0, 0)"
  by (simp_all add: canvas_def icon_no_song_def draw_defs)

lemma icon_gender_builds:
  "run_state (icon_gender female) h = (length h, h @ [canvas (icon_gender female)])"
  "im_mode (canvas (icon_gender female)) = ''RGBA''"
  "im_size (canvas (icon_gender female)) = (CANVAS, CANVAS)"
  "im_color (canvas (icon_gender female)) = (0, 0, 0, 0)"
  by (simp_all add: canvas_def icon_gender_def draw_defs)

lemma icon_beats_builds:
  "run_state (icon_beats count) h = (length h, h @ [canvas (icon_beats count)])"
  "im_mode (canvas (icon_beats count)) = ''RGBA''"
  "im_size (canvas (icon_beats count)) = (CANVAS, CANVAS)"
  "im_color (canvas (icon_beats count)) = (0, 0, 0, 0)"
  by (simp_all add: canvas_def icon_beats_def draw_defs Let_def run_for_loop_paint
      run_for_loop_paint_single)

lemma icon_easepocket_builds:
  "run_state icon_easepocket h = (length h, h @ [canvas icon_easepocket])"
  "im_mode (canvas icon_easepocket) = ''RGBA''"
  "im_size (canvas icon_easepocket) = (CANVAS, CANVAS)"
  "im_color (canvas icon_easepocket) = (0, 0, 0, 0)"
  by (simp_all add: canvas_def icon_easepocket_def draw_defs)

subsection \<open>Directories and saving\<close>

lemma in_dirs_to: "q \<in> set (dirs_to p) \<longleftrightarrow> q \<noteq> [] \<and> prefix q p"
proof (induction p arbitrary: q)
  case Nil
  show ?case by simp
next
  case (Cons c cs)
  show ?case
  proof (cases q)
    case Nil
    then show ?thesis by auto
  next
    case (Cons a q')
    have "a # q' \<in> set (dirs_to (c # cs)) \<longleftrightarrow> a = c \<and> (q' = [] \<or> q' \<in> set (dirs_to cs))"
      by auto
    also have "\<dots> \<longleftrightarrow> a = c \<and> prefix q' cs"
      unfolding Cons.IH by auto
    finally show ?thesis using Cons by simp
  qed
qed

lemma set_dirs_to: "set (dirs_to p) = {q. q \<noteq> [] \<and> prefix q p}"
  using in_dirs_to by blast

lemma mkdirs_dirs_Cons:
  "(@) base ` set (dirs_to (c # cs)) = insert (base @ [c]) ((@) (base @ [c]) ` set (dirs_to cs))"
  by (simp add: image_image)


lemma mkdirs_eq:
  "mkdirs base cs fs = Inr fs' \<Longrightarrow>
     fs' = (\<lambda>q. if q \<in> (@) base ` set (dirs_to cs) \<and> fs q = None then Some Dir else fs q)"
proof (induction cs arbitrary: base fs)
  case Nil
  then show ?case by auto
next
  case (Cons c cs)
  show ?case
  proof (cases "fs (base @ [c])")
    case None
    with Cons.prems have "mkdirs (base @ [c]) cs (fs(base @ [c] \<mapsto> Dir)) = Inr fs'" by simp
    from Cons.IH [OF this] show ?thesis
      unfolding mkdirs_dirs_Cons using None by (auto simp: fun_eq_iff)
  next
    case (Some n)
    show ?thesis
    proof (cases n)
      case Dir
      with Some Cons.prems have "mkdirs (base @ [c]) cs fs = Inr fs'" by simp
      from Cons.IH [OF this] show ?thesis
        unfolding mkdirs_dirs_Cons using Some Dir by (auto simp: fun_eq_iff)
    next
      case (File x)
      with Some Cons.prems show ?thesis by simp
    qed
  qed
qed

lemma mkdirs_ok_iff:
  "(\<exists>fs'. mkdirs base cs fs = Inr fs') \<longleftrightarrow> (\<forall>q \<in> (@) base ` set (dirs_to cs). \<not> is_file fs q)"
proof (induction cs arbitrary: base fs)
  case Nil
  show ?case by simp
next
  case (Cons c cs)
  let ?D = "(@) (base @ [c]) ` set (dirs_to cs)"
  show ?case
  proof (cases "fs (base @ [c])")
    case None
    let ?fs = "fs(base @ [c] \<mapsto> Dir)"
    have A: "(\<exists>fs'. mkdirs base (c # cs) fs = Inr fs') \<longleftrightarrow> (\<exists>fs'. mkdirs (base @ [c]) cs ?fs = Inr fs')"
      using None by simp
    have B: "(\<exists>fs'. mkdirs (base @ [c]) cs ?fs = Inr fs') \<longleftrightarrow> (\<forall>q \<in> ?D. \<not> is_file ?fs q)"
      by (rule Cons.IH)
    have "base @ [c] \<notin> ?D"
      by (auto simp: set_dirs_to)
    then have C: "(\<forall>q \<in> ?D. \<not> is_file ?fs q) \<longleftrightarrow> (\<forall>q \<in> ?D. \<not> is_file fs q)"
      by (auto simp: is_file_def)
    have D: "\<not> is_file fs (base @ [c])"
      using None by (simp add: is_file_def)
    show ?thesis
      unfolding mkdirs_dirs_Cons A B C using D by blast
  next
    case (Some n)
    show ?thesis
    proof (cases n)
      case Dir
      have A: "(\<exists>fs'. mkdirs base (c # cs) fs = Inr fs') \<longleftrightarrow> (\<exists>fs'. mkdirs (base @ [c]) cs fs = Inr fs')"
        using Some Dir by simp
      have B: "(\<exists>fs'. mkdirs (base @ [c]) cs fs = Inr fs') \<longleftrightarrow> (\<forall>q \<in> ?D. \<not> is_file fs q)"
        by (rule Cons.IH)
      have D: "\<not> is_file fs (base @ [c])"
        using Some Dir by (simp add: is_file_def)
      show ?thesis
        unfolding mkdirs_dirs_Cons A B using D by blast
    next
      case (File x)
      have A: "\<not> (\<exists>fs'. mkdirs base (c # cs) fs = Inr fs')"
        using Some File by simp
      have D: "is_file fs (base @ [c])"
        using Some File by (simp add: is_file_def)
      show ?thesis
        unfolding mkdirs_dirs_Cons using A D by blast
    qed
  qed
qed



lemma mkdir_eq:
  "mkdir p fs = Inr fs' \<Longrightarrow>
     fs' = (\<lambda>q. if q \<in> set (dirs_to p) \<and> fs q = None then Some Dir else fs q)"
  unfolding mkdir_def by (drule mkdirs_eq) simp

lemma mkdir_ok_iff: "(\<exists>fs'. mkdir p fs = Inr fs') \<longleftrightarrow> (\<forall>q \<in> set (dirs_to p). \<not> is_file fs q)"
  unfolding mkdir_def using mkdirs_ok_iff [of "[]" p fs] by simp

lemma parent_in_dirs_to: "parent t \<noteq> [] \<Longrightarrow> parent t \<in> set (dirs_to (parent t))"
  by (simp add: set_dirs_to)

lemma target_notin_dirs_to: "t \<noteq> [] \<Longrightarrow> t \<notin> set (dirs_to (parent t))"
proof
  assume "t \<noteq> []" and "t \<in> set (dirs_to (parent t))"
  then have "prefix t (butlast t)" by (simp add: set_dirs_to parent_def)
  then have "length t \<le> length (butlast t)" by (rule prefix_length_le)
  with \<open>t \<noteq> []\<close> show False by (cases t rule: rev_cases) simp_all
qed

lemma u_save_eq:
  assumes "u_save S img t fs = Inr fs'" and "t \<noteq> []"
  shows "fs' = (\<lambda>q. if q = t then Some (File (Encoded (splitext_ext (name t)) (resize img (SIZE, SIZE) LANCZOS)))
                    else if q \<in> set (dirs_to (parent t)) \<and> fs q = None then Some Dir else fs q)"
    and "writable fs t"
proof -
  from assms(1) obtain fs1 where mk: "mkdir (parent t) fs = Inr fs1"
    and sv: "Image_save S (resize img (SIZE, SIZE) LANCZOS) t fs1 = Inr fs'"
    by (auto simp: u_save_def split: sum.splits)
  note fs1 = mkdir_eq [OF mk]
  from sv have nd: "fs1 t \<noteq> Some Dir" and
      "fs' = fs1(t \<mapsto> File (Encoded (splitext_ext (name t)) (resize img (SIZE, SIZE) LANCZOS)))"
    by (auto simp: Image_save_def is_dir_def split: if_splits option.splits)
  then show "fs' = (\<lambda>q. if q = t then Some (File (Encoded (splitext_ext (name t)) (resize img (SIZE, SIZE) LANCZOS)))
                    else if q \<in> set (dirs_to (parent t)) \<and> fs q = None then Some Dir else fs q)"
    unfolding fs1 by (auto simp: fun_eq_iff)
  from nd target_notin_dirs_to [OF assms(2)] have "fs t \<noteq> Some Dir"
    unfolding fs1 by simp
  moreover from mk mkdir_ok_iff [of "parent t" fs] have "\<forall>q \<in> set (dirs_to (parent t)). \<not> is_file fs q"
    by blast
  ultimately show "writable fs t"
    using assms(2) by (simp add: writable_def is_dir_def)
qed

lemma u_save_can_encode:
  assumes "u_save S img t fs = Inr fs'"
  shows "can_encode S img t"
proof -
  from assms obtain fs1 where
    sv: "Image_save S (resize img (SIZE, SIZE) LANCZOS) t fs1 = Inr fs'"
    by (auto simp: u_save_def split: sum.splits)
  then show ?thesis
    by (auto simp: Image_save_def can_encode_def resize_def split: option.splits if_splits)
qed

lemma can_encode_png:
  "splitext_ext (name t) = ''.png'' \<Longrightarrow> im_mode img = ''RGBA'' \<Longrightarrow> can_encode S img t"
  by (simp add: can_encode_def save_format_def save_accepts_def)

lemma u_save_ok:
  assumes "writable fs t" and enc: "can_encode S img t"
  shows "\<exists>fs'. u_save S img t fs = Inr fs'"
proof -
  from enc obtain fmt where fmt: "save_format S (splitext_ext (name t)) = Some fmt"
    and acc: "save_accepts S fmt (rs_mode (resize img (SIZE, SIZE) LANCZOS))"
    by (auto simp: can_encode_def resize_def split: option.splits)
  from assms(1) have t: "t \<noteq> []" and nd: "fs t \<noteq> Some Dir"
    and nf: "\<forall>q \<in> set (dirs_to (parent t)). \<not> is_file fs q"
    by (auto simp: writable_def is_dir_def)
  from nf mkdir_ok_iff [of "parent t" fs] obtain fs1 where mk: "mkdir (parent t) fs = Inr fs1"
    by blast
  note fs1 = mkdir_eq [OF mk]
  have "\<not> is_dir fs1 t"
    unfolding fs1 is_dir_def using nd t target_notin_dirs_to [OF t] by simp
  moreover have "is_dir fs1 (parent t)"
  proof (cases "parent t = []")
    case True
    then show ?thesis by (simp add: is_dir_def)
  next
    case False
    from parent_in_dirs_to [OF this] nf have "\<not> is_file fs (parent t)" by blast
    with parent_in_dirs_to [OF False] show ?thesis
      unfolding fs1 is_dir_def is_file_def by (auto split: option.splits node.splits)
  qed
  ultimately show ?thesis
    using mk fmt acc by (simp add: u_save_def Image_save_def)
qed

lemma u_save_nonroot: "u_save S img t fs = Inr fs' \<Longrightarrow> t \<noteq> []"
  by (auto simp: u_save_def Image_save_def is_dir_def Let_def
      split: sum.splits if_splits option.splits)

lemma u_save_ok_iff:
  "(\<exists>fs'. u_save S img t fs = Inr fs') \<longleftrightarrow> writable fs t \<and> can_encode S img t"
  using u_save_eq(2) u_save_nonroot u_save_ok u_save_can_encode by blast


subsection \<open>The run over the registry\<close>

lemma ICON_BUILD_pure:
  "\<forall>e\<in>set ICON_BUILD. \<forall>h. run_state (snd e) h = (length h, h @ [canvas (snd e)])"
  unfolding ICON_BUILD_def
  by (simp add: icon_singing_builds icon_lyrics_builds icon_sessions_builds icon_profile_builds
      icon_live_mode_builds icon_lyrics_sync_builds icon_feedback_builds
      icon_mindfulness_voice_builds icon_language_accent_builds icon_howto_builds
      icon_record_builds icon_stop_builds icon_metronome_builds icon_flag_builds icon_bpm_builds
      icon_count_in_builds icon_lyrics_flow_builds icon_about_builds icon_no_song_builds
      icon_gender_builds icon_beats_builds icon_easepocket_builds)

lemma run_entries_Cons_pure:
  assumes "run_state b (w_heap w) = (length (w_heap w), w_heap w @ [canvas b])"
  shows "run_entries S ((t, b) # rest) w =
     (case u_save S (canvas b) t (w_files w) of
        Inl e \<Rightarrow> Inl e
      | Inr fs \<Rightarrow>
          run_entries S rest
            \<lparr>w_heap = w_heap w @ [canvas b], w_files = fs,
             w_stdout = w_stdout w @ [''generated '' @ as_posix t]\<rparr>)"
  using assms by simp

lemma run_entries_step:
  assumes "\<forall>e\<in>set ((t, b) # es). \<forall>h. run_state (snd e) h = (length h, h @ [canvas (snd e)])"
    and "run_entries S ((t, b) # es) w = Inr w'"
  obtains fs where "u_save S (canvas b) t (w_files w) = Inr fs"
    and "run_entries S es \<lparr>w_heap = w_heap w @ [canvas b], w_files = fs,
             w_stdout = w_stdout w @ [''generated '' @ as_posix t]\<rparr> = Inr w'"
proof -
  have pure: "run_state b (w_heap w) = (length (w_heap w), w_heap w @ [canvas b])"
    using assms(1) by simp
  from assms(2) show ?thesis
    unfolding run_entries_Cons_pure [OF pure] by (auto split: sum.splits intro: that)
qed

lemma run_entries_shape:
  assumes "\<forall>e\<in>set es. \<forall>h. run_state (snd e) h = (length h, h @ [canvas (snd e)])"
    and "run_entries S es w = Inr w'"
  shows "w_heap w' = w_heap w @ map (\<lambda>(t, b). canvas b) es
       \<and> w_stdout w' = w_stdout w @ map (\<lambda>(t, b). ''generated '' @ as_posix t) es"
  using assms
proof (induction es arbitrary: w)
  case Nil
  then show ?case by simp
next
  case (Cons e es)
  obtain t b where e: "e = (t, b)" by (cases e)
  from Cons.prems obtain fs where
    rest: "run_entries S es \<lparr>w_heap = w_heap w @ [canvas b], w_files = fs,
             w_stdout = w_stdout w @ [''generated '' @ as_posix t]\<rparr> = Inr w'"
    unfolding e by (rule run_entries_step)
  have "\<forall>e\<in>set es. \<forall>h. run_state (snd e) h = (length h, h @ [canvas (snd e)])"
    using Cons.prems(1) by simp
  from Cons.IH [OF this rest] show ?case by (simp add: e)
qed

lemma u_save_eq':
  assumes "u_save S img t fs = Inr fs'"
  shows "t \<noteq> [] \<Longrightarrow> fs' t = Some (saved t img)"
    and "t \<noteq> [] \<Longrightarrow> q \<noteq> t \<Longrightarrow> fs q \<noteq> None \<Longrightarrow> fs' q = fs q"
    and "t \<noteq> [] \<Longrightarrow> q \<in> set (dirs_to (parent t)) \<Longrightarrow> fs' q = Some Dir"
    and "t \<noteq> [] \<Longrightarrow> fs t \<noteq> Some Dir"
proof -
  assume t: "t \<noteq> []"
  note eq = u_save_eq(1) [OF assms t] and wr = u_save_eq(2) [OF assms t]
  show "fs' t = Some (saved t img)" unfolding eq saved_def by simp
  show "fs' q = fs q" if "q \<noteq> t" "fs q \<noteq> None" using that unfolding eq by simp
  show "fs t \<noteq> Some Dir" using wr by (simp add: writable_def is_dir_def)
  show "fs' q = Some Dir" if q: "q \<in> set (dirs_to (parent t))"
  proof -
    from q target_notin_dirs_to [OF t] have "q \<noteq> t" by auto
    moreover from wr q have "\<not> is_file fs q" by (simp add: writable_def)
    ultimately show ?thesis using q unfolding eq
      by (auto simp: is_file_def split: option.splits node.splits)
  qed
qed

lemma run_entries_keeps_dir:
  assumes "\<forall>e\<in>set es. \<forall>h. run_state (snd e) h = (length h, h @ [canvas (snd e)])"
    and "\<forall>e\<in>set es. fst e \<noteq> []"
    and "run_entries S es w = Inr w'"
    and "w_files w q = Some Dir"
  shows "w_files w' q = Some Dir"
  using assms
proof (induction es arbitrary: w)
  case Nil
  then show ?case by simp
next
  case (Cons e es)
  obtain t b where e: "e = (t, b)" by (cases e)
  have pure: "\<forall>e\<in>set es. \<forall>h. run_state (snd e) h = (length h, h @ [canvas (snd e)])"
    and ne: "\<forall>e\<in>set es. fst e \<noteq> []" and t: "t \<noteq> []"
    using Cons.prems(1,2) e by simp_all
  from Cons.prems(1,3) obtain fs where sv: "u_save S (canvas b) t (w_files w) = Inr fs" and
    rest: "run_entries S es \<lparr>w_heap = w_heap w @ [canvas b], w_files = fs,
             w_stdout = w_stdout w @ [''generated '' @ as_posix t]\<rparr> = Inr w'"
    unfolding e by (rule run_entries_step)
  from u_save_eq'(4) [OF sv t] Cons.prems(4) have "q \<noteq> t" by auto
  with u_save_eq'(2) [OF sv t, of q] Cons.prems(4) have "fs q = Some Dir" by simp
  with Cons.IH [OF pure ne rest] show ?case by simp
qed

lemma run_entries_keeps_other:
  assumes "\<forall>e\<in>set es. \<forall>h. run_state (snd e) h = (length h, h @ [canvas (snd e)])"
    and "\<forall>e\<in>set es. fst e \<noteq> []"
    and "run_entries S es w = Inr w'"
    and "w_files w q = Some n" and "q \<notin> fst ` set es"
  shows "w_files w' q = Some n"
  using assms
proof (induction es arbitrary: w)
  case Nil
  then show ?case by simp
next
  case (Cons e es)
  obtain t b where e: "e = (t, b)" by (cases e)
  have pure: "\<forall>e\<in>set es. \<forall>h. run_state (snd e) h = (length h, h @ [canvas (snd e)])"
    and ne: "\<forall>e\<in>set es. fst e \<noteq> []" and t: "t \<noteq> []"
    using Cons.prems(1,2) e by simp_all
  from Cons.prems(1,3) obtain fs where sv: "u_save S (canvas b) t (w_files w) = Inr fs" and
    rest: "run_entries S es \<lparr>w_heap = w_heap w @ [canvas b], w_files = fs,
             w_stdout = w_stdout w @ [''generated '' @ as_posix t]\<rparr> = Inr w'"
    unfolding e by (rule run_entries_step)
  from Cons.prems(5) have "q \<noteq> t" and q: "q \<notin> fst ` set es" by (auto simp: e)
  with u_save_eq'(2) [OF sv t, of q] Cons.prems(4) have "fs q = Some n" by simp
  with Cons.IH [OF pure ne rest _ q] show ?case by simp
qed

text \<open>
  After a successful run over entries with pairwise different targets, every target holds
  the encoding of its entry's canvas, below directories.
\<close>

lemma run_entries_stable:
  assumes "\<forall>e\<in>set es. \<forall>h. run_state (snd e) h = (length h, h @ [canvas (snd e)])"
    and "\<forall>e\<in>set es. fst e \<noteq> []"
    and "distinct (map fst es)"
    and "run_entries S es w = Inr w'"
  shows "\<forall>e\<in>set es. w_files w' (fst e) = Some (saved (fst e) (canvas (snd e)))
           \<and> (\<forall>q\<in>set (dirs_to (parent (fst e))). w_files w' q = Some Dir)"
  using assms
proof (induction es arbitrary: w)
  case Nil
  then show ?case by simp
next
  case (Cons e es)
  obtain t b where e: "e = (t, b)" by (cases e)
  have pure: "\<forall>e\<in>set es. \<forall>h. run_state (snd e) h = (length h, h @ [canvas (snd e)])"
    and ne: "\<forall>e\<in>set es. fst e \<noteq> []" and t: "t \<noteq> []"
    and dist: "distinct (map fst es)" and fresh: "t \<notin> fst ` set es"
    using Cons.prems(1,2,3) e by simp_all
  from Cons.prems(1,4) obtain fs where sv: "u_save S (canvas b) t (w_files w) = Inr fs" and
    rest: "run_entries S es \<lparr>w_heap = w_heap w @ [canvas b], w_files = fs,
             w_stdout = w_stdout w @ [''generated '' @ as_posix t]\<rparr> = Inr w'"
    unfolding e by (rule run_entries_step)
  let ?w1 = "\<lparr>w_heap = w_heap w @ [canvas b], w_files = fs,
             w_stdout = w_stdout w @ [''generated '' @ as_posix t]\<rparr>"
  have "w_files ?w1 t = Some (saved t (canvas b))"
    using u_save_eq'(1) [OF sv t] by simp
  from run_entries_keeps_other [OF pure ne rest this fresh]
  have here: "w_files w' t = Some (saved t (canvas b))" .
  have dirs: "\<forall>q\<in>set (dirs_to (parent t)). w_files w' q = Some Dir"
  proof
    fix q assume "q \<in> set (dirs_to (parent t))"
    from u_save_eq'(3) [OF sv t this] have "w_files ?w1 q = Some Dir" by simp
    from run_entries_keeps_dir [OF pure ne rest this] show "w_files w' q = Some Dir" .
  qed
  from Cons.IH [OF pure ne dist rest] here dirs show ?case by (simp add: e)
qed

text \<open>A run over targets that already hold their encoded canvases changes no file.\<close>

lemma u_save_again:
  assumes "t \<noteq> []" and "fs t = Some (saved t img)"
    and "\<forall>q\<in>set (dirs_to (parent t)). fs q = Some Dir"
    and "can_encode S img t"
  shows "u_save S img t fs = Inr fs"
proof -
  have "writable fs t"
    using assms(1,2,3) by (simp add: writable_def is_dir_def is_file_def saved_def)
  then obtain fs' where sv: "u_save S img t fs = Inr fs'"
    using u_save_ok [OF _ assms(4)] by blast
  have "fs' = fs"
    unfolding u_save_eq(1) [OF sv assms(1)] using assms(2,3) by (auto simp: fun_eq_iff saved_def)
  with sv show ?thesis by simp
qed

lemma run_entries_again:
  assumes "\<forall>e\<in>set es. \<forall>h. run_state (snd e) h = (length h, h @ [canvas (snd e)])"
    and "\<forall>e\<in>set es. fst e \<noteq> [] \<and> w_files w (fst e) = Some (saved (fst e) (canvas (snd e)))
           \<and> (\<forall>q\<in>set (dirs_to (parent (fst e))). w_files w q = Some Dir)"
    and "\<forall>e\<in>set es. can_encode S (canvas (snd e)) (fst e)"
  shows "run_entries S es w =
     Inr \<lparr>w_heap = w_heap w @ map (\<lambda>(t, b). canvas b) es, w_files = w_files w,
          w_stdout = w_stdout w @ map (\<lambda>(t, b). ''generated '' @ as_posix t) es\<rparr>"
  using assms
proof (induction es arbitrary: w)
  case Nil
  then show ?case by simp
next
  case (Cons e es)
  obtain t b where e: "e = (t, b)" by (cases e)
  have pure: "run_state b (w_heap w) = (length (w_heap w), w_heap w @ [canvas b])"
    using Cons.prems(1) e by simp
  have sv: "u_save S (canvas b) t (w_files w) = Inr (w_files w)"
    using Cons.prems(2,3) e by (intro u_save_again) simp_all
  let ?w1 = "\<lparr>w_heap = w_heap w @ [canvas b], w_files = w_files w,
             w_stdout = w_stdout w @ [''generated '' @ as_posix t]\<rparr>"
  have "run_entries S es ?w1 =
     Inr \<lparr>w_heap = w_heap ?w1 @ map (\<lambda>(t, b). canvas b) es, w_files = w_files ?w1,
          w_stdout = w_stdout ?w1 @ map (\<lambda>(t, b). ''generated '' @ as_posix t) es\<rparr>"
    using Cons.prems by (intro Cons.IH) simp_all
  then show ?case
    unfolding e run_entries_Cons_pure [OF pure] sv by simp
qed

lemma in_dirs_to_parent:
  "t \<noteq> [] \<Longrightarrow> q \<in> set (dirs_to (parent t)) \<longleftrightarrow> q \<noteq> [] \<and> strict_prefix q t"
proof (cases t rule: rev_cases)
  case Nil
  assume "t \<noteq> []"
  with Nil show ?thesis by simp
next
  case (snoc ys y)
  have "prefix q ys \<Longrightarrow> q \<noteq> ys @ [y]"
    by (auto dest: prefix_length_le)
  then show ?thesis
    unfolding snoc in_dirs_to parent_def strict_prefix_def by (auto simp: prefix_snoc)
qed

text \<open>
  A run succeeds when every target is writable, no target lies below another and every
  canvas can be encoded at its target; and a run that succeeds started from a tree where
  every target was writable.
\<close>

lemma run_entries_ok:
  assumes "\<forall>e\<in>set es. \<forall>h. run_state (snd e) h = (length h, h @ [canvas (snd e)])"
    and "\<forall>e\<in>set es. writable (w_files w) (fst e)"
    and "\<forall>e\<in>set es. \<forall>e'\<in>set es. \<not> strict_prefix (fst e) (fst e')"
    and "\<forall>e\<in>set es. can_encode S (canvas (snd e)) (fst e)"
  shows "\<exists>w'. run_entries S es w = Inr w'"
  using assms
proof (induction es arbitrary: w)
  case Nil
  then show ?case by simp
next
  case (Cons e es)
  obtain t b where e: "e = (t, b)" by (cases e)
  have pure: "run_state b (w_heap w) = (length (w_heap w), w_heap w @ [canvas b])"
    using Cons.prems(1) e by simp
  have wt: "writable (w_files w) t" using Cons.prems(2) e by simp
  then have t: "t \<noteq> []" by (simp add: writable_def)
  have "can_encode S (canvas b) t" using Cons.prems(4) e by simp
  with wt obtain fs where sv: "u_save S (canvas b) t (w_files w) = Inr fs"
    using u_save_ok by blast
  note fs = u_save_eq(1) [OF sv t]
  let ?w1 = "\<lparr>w_heap = w_heap w @ [canvas b], w_files = fs,
             w_stdout = w_stdout w @ [''generated '' @ as_posix t]\<rparr>"
  have "\<forall>e\<in>set es. writable (w_files ?w1) (fst e)"
  proof
    fix e' assume e': "e' \<in> set es"
    let ?t' = "fst e'"
    from Cons.prems(2) e' have w': "writable (w_files w) ?t'" by simp
    from Cons.prems(3) e' e have np1: "\<not> strict_prefix t ?t'" and np2: "\<not> strict_prefix ?t' t"
      by auto
    have a: "\<not> is_dir fs ?t'"
    proof -
      have "?t' \<notin> set (dirs_to (parent t))"
        using np2 t by (simp add: in_dirs_to_parent)
      with w' show ?thesis
        unfolding fs by (auto simp: writable_def is_dir_def)
    qed
    have b: "\<forall>q\<in>set (dirs_to (parent ?t')). \<not> is_file fs q"
    proof
      fix q assume q: "q \<in> set (dirs_to (parent ?t'))"
      with w' have "\<not> is_file (w_files w) q" by (simp add: writable_def)
      moreover have "q \<noteq> t"
        using q np1 w' by (auto simp: in_dirs_to_parent writable_def)
      ultimately show "\<not> is_file fs q"
        unfolding fs by (auto simp: is_file_def)
    qed
    from w' a b show "writable (w_files ?w1) (fst e')" by (simp add: writable_def)
  qed
  moreover have "\<forall>e\<in>set es. \<forall>h. run_state (snd e) h = (length h, h @ [canvas (snd e)])"
    and "\<forall>e\<in>set es. \<forall>e'\<in>set es. \<not> strict_prefix (fst e) (fst e')"
    and "\<forall>e\<in>set es. can_encode S (canvas (snd e)) (fst e)"
    using Cons.prems(1,3,4) by simp_all
  ultimately have "\<exists>w'. run_entries S es ?w1 = Inr w'"
    by (intro Cons.IH) 
  then show ?case
    unfolding e run_entries_Cons_pure [OF pure] sv by simp
qed

lemma run_entries_ok_only_if:
  assumes "\<forall>e\<in>set es. \<forall>h. run_state (snd e) h = (length h, h @ [canvas (snd e)])"
    and "run_entries S es w = Inr w'"
  shows "\<forall>e\<in>set es. writable (w_files w) (fst e)"
  using assms
proof (induction es arbitrary: w)
  case Nil
  then show ?case by simp
next
  case (Cons e es)
  obtain t b where e: "e = (t, b)" by (cases e)
  have pure: "\<forall>e\<in>set es. \<forall>h. run_state (snd e) h = (length h, h @ [canvas (snd e)])"
    using Cons.prems(1) by simp
  from Cons.prems obtain fs where sv: "u_save S (canvas b) t (w_files w) = Inr fs" and
    rest: "run_entries S es \<lparr>w_heap = w_heap w @ [canvas b], w_files = fs,
             w_stdout = w_stdout w @ [''generated '' @ as_posix t]\<rparr> = Inr w'"
    unfolding e by (rule run_entries_step)
  have t: "t \<noteq> []" using sv by (rule u_save_nonroot)
  note fs = u_save_eq(1) [OF sv t] and wt = u_save_eq(2) [OF sv t]
  have "writable (w_files w) (fst e')" if e': "e' \<in> set es" for e'
  proof -
    from Cons.IH [OF pure rest] e' have w1: "writable fs (fst e')" by simp
    then have ne: "fst e' \<noteq> []" by (simp add: writable_def)
    have "\<not> is_dir (w_files w) (fst e')"
      using w1 wt unfolding fs by (auto simp: writable_def is_dir_def split: if_splits)
    moreover have "\<forall>q\<in>set (dirs_to (parent (fst e'))). \<not> is_file (w_files w) q"
      using w1 unfolding fs
      by (auto simp: writable_def is_file_def split: if_splits option.splits node.splits)
    ultimately show ?thesis using ne by (simp add: writable_def)
  qed
  with wt show ?case by (simp add: e)
qed

lemma ICON_BUILD_targets:
  "\<forall>e\<in>set ICON_BUILD. fst e \<noteq> []"
  "\<forall>e\<in>set ICON_BUILD. splitext_ext (name (fst e)) = ''.png''"
  "distinct (map fst ICON_BUILD)"
  by (simp_all add: ICON_BUILD_def ICON_SET_def ASSETS_def splitext_ext_def name_def rfind_def)

lemma ICON_BUILD_no_nesting:
  "\<forall>e\<in>set ICON_BUILD. \<forall>e'\<in>set ICON_BUILD. \<not> strict_prefix (fst e) (fst e')"
proof -
  have "\<forall>e\<in>set ICON_BUILD. length (fst e) = 3 \<and> fst e ! 2 \<noteq> ''icon-set'' \<or> length (fst e) = 4"
    by (simp add: ICON_BUILD_def ICON_SET_def ASSETS_def)
  moreover have "\<forall>e\<in>set ICON_BUILD. length (fst e) = 4 \<longrightarrow> fst e ! 2 = ''icon-set''"
    by (simp add: ICON_BUILD_def ICON_SET_def ASSETS_def)
  moreover have "\<not> strict_prefix p q"
    if "length p = 3 \<and> p ! 2 \<noteq> ''icon-set'' \<or> length p = 4"
      and "length q = 3 \<or> length q = 4 \<and> q ! 2 = ''icon-set''" for p q :: path
  proof
    assume sp: "strict_prefix p q"
    then have "length p < length q" by (rule prefix_length_less)
    with that have lp: "length p = 3" and lq: "length q = 4" and p2: "p ! 2 \<noteq> ''icon-set''"
      and q2: "q ! 2 = ''icon-set''" by auto
    from sp obtain r where "q = p @ r" by (auto simp: strict_prefix_def prefix_def)
    with lp have "q ! 2 = p ! 2" by (simp add: nth_append)
    with p2 q2 show False by simp
  qed
  ultimately show ?thesis by (metis)
qed


lemma ICON_BUILD_modes: "\<forall>e\<in>set ICON_BUILD. im_mode (canvas (snd e)) = ''RGBA''"
  unfolding ICON_BUILD_def
  by (simp add: icon_singing_builds icon_lyrics_builds icon_sessions_builds icon_profile_builds
      icon_live_mode_builds icon_lyrics_sync_builds icon_feedback_builds
      icon_mindfulness_voice_builds icon_language_accent_builds icon_howto_builds
      icon_record_builds icon_stop_builds icon_metronome_builds icon_flag_builds icon_bpm_builds
      icon_count_in_builds icon_lyrics_flow_builds icon_about_builds icon_no_song_builds
      icon_gender_builds icon_beats_builds icon_easepocket_builds)

lemma ICON_BUILD_encodable: "\<forall>e\<in>set ICON_BUILD. can_encode S (canvas (snd e)) (fst e)"
  using ICON_BUILD_targets(2) ICON_BUILD_modes by (blast intro: can_encode_png)

lemma main_ok_iff:
  "(\<exists>w'. main S w = Inr w') \<longleftrightarrow> (\<forall>e\<in>set ICON_BUILD. writable (w_files w) (fst e))"
  unfolding main_def
  using run_entries_ok [OF ICON_BUILD_pure _ ICON_BUILD_no_nesting ICON_BUILD_encodable, of w S]
    run_entries_ok_only_if [OF ICON_BUILD_pure, of S w]
  by blast

lemma main_result:
  assumes "main S w = Inr w'"
  shows "w_heap w' = w_heap w @ map (\<lambda>(t, b). canvas b) ICON_BUILD"
    and "w_stdout w' = w_stdout w @ map (\<lambda>(t, b). ''generated '' @ as_posix t) ICON_BUILD"
    and "\<forall>e\<in>set ICON_BUILD. w_files w' (fst e) = Some (saved (fst e) (canvas (snd e)))
            \<and> (\<forall>q\<in>set (dirs_to (parent (fst e))). w_files w' q = Some Dir)"
  using run_entries_shape [OF ICON_BUILD_pure assms [unfolded main_def]]
    run_entries_stable [OF ICON_BUILD_pure ICON_BUILD_targets(1,3) assms [unfolded main_def]]
  by blast+

lemma main_again:
  assumes "main S w = Inr w1"
  shows "main S w1 =
     Inr \<lparr>w_heap = w_heap w1 @ map (\<lambda>(t, b). canvas b) ICON_BUILD, w_files = w_files w1,
          w_stdout = w_stdout w1 @ map (\<lambda>(t, b). ''generated '' @ as_posix t) ICON_BUILD\<rparr>"
  unfolding main_def
  using main_result(3) [OF assms] ICON_BUILD_targets(1)
  by (intro run_entries_again [OF ICON_BUILD_pure _ ICON_BUILD_encodable]) blast

lemma saved_png:
  "e \<in> set ICON_BUILD \<Longrightarrow>
     saved (fst e) img = File (Encoded ''.png'' (resize img (SIZE, SIZE) LANCZOS))"
  using ICON_BUILD_targets(2) by (simp add: saved_def)

lemma builders_build:
  assumes "b \<in> snd ` set ICON_BUILD \<union> range icon_feedback \<union> range icon_gender \<union> range icon_beats"
  shows "run_state b h = (length h, h @ [canvas b])"
    and "im_mode (canvas b) = ''RGBA''"
    and "im_size (canvas b) = (CANVAS, CANVAS)"
    and "im_color (canvas b) = (0, 0, 0, 0)"
proof -
  have "run_state b h = (length h, h @ [canvas b]) \<and> im_mode (canvas b) = ''RGBA''
      \<and> im_size (canvas b) = (CANVAS, CANVAS) \<and> im_color (canvas b) = (0, 0, 0, 0)"
    using assms unfolding ICON_BUILD_def
    by (auto simp: icon_singing_builds icon_lyrics_builds icon_sessions_builds icon_profile_builds
      icon_live_mode_builds icon_lyrics_sync_builds icon_feedback_builds
      icon_mindfulness_voice_builds icon_language_accent_builds icon_howto_builds
      icon_record_builds icon_stop_builds icon_metronome_builds icon_flag_builds icon_bpm_builds
      icon_count_in_builds icon_lyrics_flow_builds icon_about_builds icon_no_song_builds
      icon_gender_builds icon_beats_builds icon_easepocket_builds)
  then show "run_state b h = (length h, h @ [canvas b])"
    and "im_mode (canvas b) = ''RGBA''"
    and "im_size (canvas b) = (CANVAS, CANVAS)"
    and "im_color (canvas b) = (0, 0, 0, 0)"
    by simp_all
qed


subsection \<open>Claims about the canvases, the files and the run\<close>

lemma u_save_over_file:
  assumes t: "t \<noteq> []" and old: "fs t = Some (File old)"
    and dirs: "\<forall>q\<in>set (dirs_to (parent t)). fs q = Some Dir"
  shows "u_save S img t fs =
           (if can_encode S img t then Inr (fs(t \<mapsto> saved t img))
            else if save_format S (splitext_ext (name t)) = None then Inl ValueError
            else Inl OSError)"
proof -
  from dirs have "\<forall>q\<in>set (dirs_to (parent t)). \<not> is_file fs q"
    by (simp add: is_file_def)
  with mkdir_ok_iff [of "parent t" fs] obtain fs1 where mk: "mkdir (parent t) fs = Inr fs1"
    by blast
  from mkdir_eq [OF mk] dirs have "fs1 = fs" by (auto simp: fun_eq_iff)
  with mk have mk': "mkdir (parent t) fs = Inr fs" by simp
  have nd: "\<not> is_dir fs t" using t old by (simp add: is_dir_def)
  have pd: "is_dir fs (parent t)"
  proof (cases "parent t = []")
    case True
    then show ?thesis by (simp add: is_dir_def)
  next
    case False
    from parent_in_dirs_to [OF this] dirs show ?thesis by (simp add: is_dir_def)
  qed
  show ?thesis
    using mk' nd pd
    by (simp add: u_save_def Image_save_def can_encode_def saved_def resize_def
        split: option.splits)
qed

lemma empty_tree_writable:
  "\<forall>e\<in>set ICON_BUILD. writable (w_files \<lparr>w_heap = [], w_files = Map.empty, w_stdout = []\<rparr>) (fst e)"
  using ICON_BUILD_targets(1) by (simp add: writable_def is_dir_def is_file_def)

text \<open>
  C2: \<^verbatim>\<open>_new\<close> allocates an RGBA image of side \<open>CANVAS = 512 * 4 = 2048\<close>, filled with
  \<open>(0, 0, 0, 0)\<close> and with nothing drawn on it. The canvas every builder returns (each
  registered builder, and each parametric builder at every parameter value) is an RGBA
  image of side 2048 that was created with the fill \<open>(0, 0, 0, 0)\<close>. Every file a
  successful \<^verbatim>\<open>_save\<close> writes holds an image of size 512 by 512 in the mode of the
  canvas, and after a successful run every registered target holds a \<^verbatim>\<open>.png\<close> encoding
  of a 512 by 512 RGBA image.
\<close>

theorem C2_canvas_and_output_format:
  "run_state u_new h =
     ((length h, length h),
      h @ [\<lparr>im_mode = ''RGBA'', im_size = (2048, 2048), im_color = (0, 0, 0, 0), im_calls = []\<rparr>])
   \<and> CANVAS = 512 * 4
   \<and> (\<forall>b \<in> snd ` set ICON_BUILD \<union> range icon_feedback \<union> range icon_gender \<union> range icon_beats.
         run_state b h = (length h, h @ [canvas b])
       \<and> im_mode (canvas b) = ''RGBA'' \<and> im_size (canvas b) = (2048, 2048)
       \<and> im_color (canvas b) = (0, 0, 0, 0))
   \<and> (\<forall>fs'. u_save S img target fs = Inr fs' \<longrightarrow>
         (\<exists>out. fs' target = Some (File (Encoded (splitext_ext (name target)) out))
            \<and> rs_mode out = im_mode img \<and> rs_size out = (512, 512)))
   \<and> (\<forall>w'. main S w = Inr w' \<longrightarrow>
         (\<forall>e \<in> set ICON_BUILD.
            \<exists>out. w_files w' (fst e) = Some (File (Encoded ''.png'' out))
              \<and> rs_mode out = ''RGBA'' \<and> rs_size out = (512, 512)))"
proof -
  have canvas_side: "CANVAS = 2048" by (simp add: CANVAS_def SIZE_def SCALE_def)
  have new: "run_state u_new h =
     ((length h, length h),
      h @ [\<lparr>im_mode = ''RGBA'', im_size = (2048, 2048), im_color = (0, 0, 0, 0), im_calls = []\<rparr>])"
    by (simp add: u_new_def canvas_side)
  have builders: "\<forall>b \<in> snd ` set ICON_BUILD \<union> range icon_feedback \<union> range icon_gender \<union> range icon_beats.
         run_state b h = (length h, h @ [canvas b])
       \<and> im_mode (canvas b) = ''RGBA'' \<and> im_size (canvas b) = (2048, 2048)
       \<and> im_color (canvas b) = (0, 0, 0, 0)"
  proof (intro ballI conjI)
    fix b
    assume b: "b \<in> snd ` set ICON_BUILD \<union> range icon_feedback \<union> range icon_gender \<union> range icon_beats"
    show "run_state b h = (length h, h @ [canvas b])" using b by (rule builders_build(1))
    show "im_mode (canvas b) = ''RGBA''" using b by (rule builders_build(2))
    show "im_size (canvas b) = (2048, 2048)" using builders_build(3) [OF b] canvas_side by simp
    show "im_color (canvas b) = (0, 0, 0, 0)" using b by (rule builders_build(4))
  qed
  have save: "\<exists>out. fs' target = Some (File (Encoded (splitext_ext (name target)) out))
            \<and> rs_mode out = im_mode img \<and> rs_size out = (512, 512)"
    if "u_save S img target fs = Inr fs'" for fs'
    using u_save_eq'(1) [OF that u_save_nonroot [OF that]]
    by (simp add: saved_def resize_def SIZE_def)
  have files: "\<exists>out. w_files w' (fst e) = Some (File (Encoded ''.png'' out))
              \<and> rs_mode out = ''RGBA'' \<and> rs_size out = (512, 512)"
    if run: "main S w = Inr w'" and e: "e \<in> set ICON_BUILD" for w' e
  proof -
    from e have "snd e \<in> snd ` set ICON_BUILD \<union> range icon_feedback \<union> range icon_gender \<union> range icon_beats"
      by simp
    then have "im_mode (canvas (snd e)) = ''RGBA''" by (rule builders_build(2))
    with main_result(3) [OF run] e saved_png [OF e, of "canvas (snd e)"] show ?thesis
      by (simp add: resize_def SIZE_def)
  qed
  have side: "CANVAS = 512 * 4" by (simp add: CANVAS_def SIZE_def SCALE_def)
  show ?thesis
  proof (intro conjI)
    show "run_state u_new h =
     ((length h, length h),
      h @ [\<lparr>im_mode = ''RGBA'', im_size = (2048, 2048), im_color = (0, 0, 0, 0), im_calls = []\<rparr>])"
      by (fact new)
    show "CANVAS = 512 * 4" by (fact side)
    show "\<forall>b \<in> snd ` set ICON_BUILD \<union> range icon_feedback \<union> range icon_gender \<union> range icon_beats.
         run_state b h = (length h, h @ [canvas b])
       \<and> im_mode (canvas b) = ''RGBA'' \<and> im_size (canvas b) = (2048, 2048)
       \<and> im_color (canvas b) = (0, 0, 0, 0)"
      by (fact builders)
    show "\<forall>fs'. u_save S img target fs = Inr fs' \<longrightarrow>
         (\<exists>out. fs' target = Some (File (Encoded (splitext_ext (name target)) out))
            \<and> rs_mode out = im_mode img \<and> rs_size out = (512, 512))"
      using save by blast
    show "\<forall>w'. main S w = Inr w' \<longrightarrow>
         (\<forall>e \<in> set ICON_BUILD.
            \<exists>out. w_files w' (fst e) = Some (File (Encoded ''.png'' out))
              \<and> rs_mode out = ''RGBA'' \<and> rs_size out = (512, 512))"
      using files by blast
  qed
qed

text \<open>
  The claim C2 on a run from an empty tree: the run succeeds, and the file at
  \<^verbatim>\<open>assets/images/Stop_icon.png\<close> is a \<^verbatim>\<open>.png\<close> encoding of a 512 by 512 RGBA image;
  the canvas of \<^verbatim>\<open>icon_beats(4)\<close> has side 2048.
\<close>

theorem C2_canvas_and_output_format_witness:
  "\<exists>w'. main \<lparr>sv_format = (\<lambda>_. None), sv_accepts = (\<lambda>_ _. False)\<rparr>
       \<lparr>w_heap = [], w_files = Map.empty, w_stdout = []\<rparr> = Inr w'
     \<and> (\<exists>out. w_files w' [''assets'', ''images'', ''Stop_icon.png''] = Some (File (Encoded ''.png'' out))
           \<and> rs_mode out = ''RGBA'' \<and> rs_size out = (512, 512))
     \<and> im_size (canvas (icon_beats 4)) = (2048, 2048)"
proof -
  let ?S = "\<lparr>sv_format = (\<lambda>_. None), sv_accepts = (\<lambda>_ _. False)\<rparr>"
  let ?w = "\<lparr>w_heap = [], w_files = Map.empty, w_stdout = []\<rparr>"
  from empty_tree_writable main_ok_iff [of ?S ?w] obtain w' where run: "main ?S ?w = Inr w'"
    by blast
  have e: "([''assets'', ''images'', ''Stop_icon.png''], icon_stop) \<in> set ICON_BUILD"
    by (simp add: ICON_BUILD_def ASSETS_def)
  note c2 = C2_canvas_and_output_format [where h = "[]" and S = ?S and w = ?w]
  note c2_builders = c2 [THEN conjunct2, THEN conjunct2, THEN conjunct1]
  note c2_files = c2 [THEN conjunct2, THEN conjunct2, THEN conjunct2, THEN conjunct2]
  have "icon_beats 4 \<in> snd ` set ICON_BUILD \<union> range icon_feedback \<union> range icon_gender \<union> range icon_beats"
    by simp
  with c2_builders have "im_size (canvas (icon_beats 4)) = (2048, 2048)" by blast
  moreover from c2_files run have "\<forall>e \<in> set ICON_BUILD.
            \<exists>out. w_files w' (fst e) = Some (File (Encoded ''.png'' out))
              \<and> rs_mode out = ''RGBA'' \<and> rs_size out = (512, 512)"
    by blast
  from bspec [OF this e]
  have "\<exists>out. w_files w' [''assets'', ''images'', ''Stop_icon.png''] = Some (File (Encoded ''.png'' out))
           \<and> rs_mode out = ''RGBA'' \<and> rs_size out = (512, 512)"
    by simp
  ultimately show ?thesis using run by blast
qed

text \<open>
  C7: every builder is deterministic. Whatever objects the heap already holds, a builder
  (each registered builder, and each parametric builder at every parameter value)
  allocates exactly one new image, leaves every existing object as it was, and the
  content of the new image (mode, size, fill and the drawing calls in order) is the same
  in any two runs: it does not depend on the state the run starts in. A builder takes no
  clock, random source or file tree: its only input is its parameter and its only effect
  is on the heap.
\<close>

theorem C7_builders_deterministic:
  assumes "b \<in> snd ` set ICON_BUILD \<union> range icon_feedback \<union> range icon_gender \<union> range icon_beats"
    and "run_state b h1 = (r1, h1')"
    and "run_state b h2 = (r2, h2')"
  shows "h1' ! r1 = h2' ! r2
       \<and> r1 = length h1 \<and> h1' = h1 @ [h1' ! r1]
       \<and> r2 = length h2 \<and> h2' = h2 @ [h2' ! r2]"
  using assms(2,3) unfolding builders_build(1) [OF assms(1)] by auto

text \<open>
  C7 on two runs of \<^verbatim>\<open>icon_beats(3)\<close>, one in the empty heap and one in a heap that already
  holds the canvas of \<^verbatim>\<open>icon_stop\<close>: the two canvases are equal.
\<close>

theorem C7_builders_deterministic_witness:
  "snd (run_state (icon_beats 3) []) ! fst (run_state (icon_beats 3) []) =
   snd (run_state (icon_beats 3) [canvas icon_stop]) ! fst (run_state (icon_beats 3) [canvas icon_stop])
   \<and> fst (run_state (icon_beats 3) [canvas icon_stop]) = length [canvas icon_stop]"
proof -
  have "icon_beats 3 \<in> snd ` set ICON_BUILD \<union> range icon_feedback \<union> range icon_gender \<union> range icon_beats"
    by simp
  from C7_builders_deterministic [OF this surjective_pairing surjective_pairing,
      of "[]" "[canvas icon_stop]"]
  show ?thesis by blast
qed

text \<open>
  C8: saving to a target where a file already exists (below existing directories, as in
  any file tree) never appends and never leaves the old content: when a format is
  registered for the target's extension and its writer accepts the mode of the image, the
  save succeeds and replaces the content of that file by the encoding of the image,
  whatever the old content was, and nothing else in the tree changes; otherwise the save
  raises (\<^verbatim>\<open>ValueError\<close> for an unknown extension, \<^verbatim>\<open>OSError\<close> from the writer). For
  every entry of the catalog the save over an existing file succeeds: each registered
  target is a \<^verbatim>\<open>.png\<close> name and each registered canvas is RGBA. After a successful run of
  the whole registry a second run succeeds as well and leaves the file tree exactly as
  the first run left it, each target holding the encoding of its canvas.
\<close>

theorem C8_save_overwrites_and_rerun_is_identical:
  "(target \<noteq> [] \<and> fs target = Some (File old)
      \<and> (\<forall>q\<in>set (dirs_to (parent target)). fs q = Some Dir)
      \<longrightarrow> u_save S img target fs =
            (if can_encode S img target then Inr (fs(target \<mapsto> saved target img))
             else if save_format S (splitext_ext (name target)) = None then Inl ValueError
             else Inl OSError))
   \<and> (\<forall>e\<in>set ICON_BUILD.
         fs (fst e) = Some (File old) \<and> (\<forall>q\<in>set (dirs_to (parent (fst e))). fs q = Some Dir)
         \<longrightarrow> u_save S (canvas (snd e)) (fst e) fs
               = Inr (fs(fst e \<mapsto> saved (fst e) (canvas (snd e)))))
   \<and> (main S w = Inr w1 \<longrightarrow>
        (\<exists>w2. main S w1 = Inr w2 \<and> w_files w2 = w_files w1
           \<and> (\<forall>e\<in>set ICON_BUILD.
                 w_files w1 (fst e) = Some (saved (fst e) (canvas (snd e)))
               \<and> w_files w2 (fst e) = Some (saved (fst e) (canvas (snd e))))))"
proof (intro conjI impI ballI)
  assume a: "target \<noteq> [] \<and> fs target = Some (File old)
      \<and> (\<forall>q\<in>set (dirs_to (parent target)). fs q = Some Dir)"
  then show "u_save S img target fs =
            (if can_encode S img target then Inr (fs(target \<mapsto> saved target img))
             else if save_format S (splitext_ext (name target)) = None then Inl ValueError
             else Inl OSError)"
    using u_save_over_file [of target fs old S img] by simp
next
  fix e
  assume e: "e \<in> set ICON_BUILD"
    and a: "fs (fst e) = Some (File old) \<and> (\<forall>q\<in>set (dirs_to (parent (fst e))). fs q = Some Dir)"
  from ICON_BUILD_targets(1) e have ne: "fst e \<noteq> []" by blast
  from ICON_BUILD_encodable e have "can_encode S (canvas (snd e)) (fst e)" by blast
  with a ne show "u_save S (canvas (snd e)) (fst e) fs
               = Inr (fs(fst e \<mapsto> saved (fst e) (canvas (snd e))))"
    using u_save_over_file [of "fst e" fs old S "canvas (snd e)"] by simp
next
  assume run: "main S w = Inr w1"
  let ?w2 = "\<lparr>w_heap = w_heap w1 @ map (\<lambda>(t, b). canvas b) ICON_BUILD, w_files = w_files w1,
          w_stdout = w_stdout w1 @ map (\<lambda>(t, b). ''generated '' @ as_posix t) ICON_BUILD\<rparr>"
  have "main S w1 = Inr ?w2" using run by (rule main_again)
  moreover have "w_files ?w2 = w_files w1" by simp
  moreover have "\<forall>e\<in>set ICON_BUILD.
                 w_files w1 (fst e) = Some (saved (fst e) (canvas (snd e)))
               \<and> w_files ?w2 (fst e) = Some (saved (fst e) (canvas (snd e)))"
    using main_result(3) [OF run] by simp
  ultimately show "\<exists>w2. main S w1 = Inr w2 \<and> w_files w2 = w_files w1
           \<and> (\<forall>e\<in>set ICON_BUILD.
                 w_files w1 (fst e) = Some (saved (fst e) (canvas (snd e)))
               \<and> w_files w2 (fst e) = Some (saved (fst e) (canvas (snd e))))"
    by blast
qed

text \<open>
  C8 at concrete inputs, with a Pillow that registers no format besides PNG: saving the
  canvas of \<^verbatim>\<open>icon_stop\<close> over an existing file \<^verbatim>\<open>icons/a.png\<close> that held the encoding of
  another canvas replaces it; saving it over an existing file \<^verbatim>\<open>icons/a.txt\<close> raises
  \<^verbatim>\<open>ValueError\<close>; saving the catalog entry \<^verbatim>\<open>Stop_icon.png\<close> over an existing file
  replaces it; and two runs in succession starting from an empty tree leave the same
  tree.
\<close>

theorem C8_save_overwrites_and_rerun_is_identical_witness:
  "u_save \<lparr>sv_format = (\<lambda>_. None), sv_accepts = (\<lambda>_ _. False)\<rparr>
      (canvas icon_stop) [''icons'', ''a.png'']
      [[''icons''] \<mapsto> Dir, [''icons'', ''a.png''] \<mapsto> saved [''b.png''] (canvas icon_record)]
     = Inr [[''icons''] \<mapsto> Dir, [''icons'', ''a.png''] \<mapsto> saved [''icons'', ''a.png''] (canvas icon_stop)]
   \<and> u_save \<lparr>sv_format = (\<lambda>_. None), sv_accepts = (\<lambda>_ _. False)\<rparr>
      (canvas icon_stop) [''icons'', ''a.txt'']
      [[''icons''] \<mapsto> Dir, [''icons'', ''a.txt''] \<mapsto> saved [''b.png''] (canvas icon_record)]
     = Inl ValueError
   \<and> u_save \<lparr>sv_format = (\<lambda>_. None), sv_accepts = (\<lambda>_ _. False)\<rparr>
      (canvas icon_stop) [''assets'', ''images'', ''Stop_icon.png'']
      [[''assets''] \<mapsto> Dir, [''assets'', ''images''] \<mapsto> Dir,
       [''assets'', ''images'', ''Stop_icon.png''] \<mapsto> saved [''b.png''] (canvas icon_record)]
     = Inr [[''assets''] \<mapsto> Dir, [''assets'', ''images''] \<mapsto> Dir,
       [''assets'', ''images'', ''Stop_icon.png'']
          \<mapsto> saved [''assets'', ''images'', ''Stop_icon.png''] (canvas icon_stop)]
   \<and> (\<exists>w1 w2. main \<lparr>sv_format = (\<lambda>_. None), sv_accepts = (\<lambda>_ _. False)\<rparr>
                  \<lparr>w_heap = [], w_files = Map.empty, w_stdout = []\<rparr> = Inr w1
         \<and> main \<lparr>sv_format = (\<lambda>_. None), sv_accepts = (\<lambda>_ _. False)\<rparr> w1 = Inr w2
         \<and> w_files w2 = w_files w1)"
proof -
  let ?S = "\<lparr>sv_format = (\<lambda>_. None), sv_accepts = (\<lambda>_ _. False)\<rparr>"
  let ?w = "\<lparr>w_heap = [], w_files = Map.empty, w_stdout = []\<rparr>"
  let ?old = "Encoded (splitext_ext (name [''b.png''])) (resize (canvas icon_record) (SIZE, SIZE) LANCZOS)"
  let ?fs = "[[''icons''] \<mapsto> Dir, [''icons'', ''a.png''] \<mapsto> saved [''b.png''] (canvas icon_record)]"
  let ?ft = "[[''icons''] \<mapsto> Dir, [''icons'', ''a.txt''] \<mapsto> saved [''b.png''] (canvas icon_record)]"
  let ?fe = "[[''assets''] \<mapsto> Dir, [''assets'', ''images''] \<mapsto> Dir,
       [''assets'', ''images'', ''Stop_icon.png''] \<mapsto> saved [''b.png''] (canvas icon_record)]"
  from empty_tree_writable main_ok_iff [of ?S ?w] obtain w1 where run: "main ?S ?w = Inr w1"
    by blast
  have mode: "im_mode (canvas icon_stop) = ''RGBA''"
    by (rule builders_build(2)) (simp add: ICON_BUILD_def)
  have e: "([''assets'', ''images'', ''Stop_icon.png''], icon_stop) \<in> set ICON_BUILD"
    by (simp add: ICON_BUILD_def ASSETS_def)
  have yes: "can_encode ?S (canvas icon_stop) [''icons'', ''a.png'']"
    using mode by (simp add: can_encode_def save_format_def save_accepts_def splitext_ext_def
        rfind_def name_def)
  have no: "\<not> can_encode ?S (canvas icon_stop) [''icons'', ''a.txt'']"
       "save_format ?S (splitext_ext (name [''icons'', ''a.txt''])) = None"
    by (simp_all add: can_encode_def save_format_def splitext_ext_def rfind_def name_def)
  have pre1: "[''icons'', ''a.png''] \<noteq> [] \<and> ?fs [''icons'', ''a.png''] = Some (File ?old)
      \<and> (\<forall>q\<in>set (dirs_to (parent [''icons'', ''a.png''])). ?fs q = Some Dir)"
    by (simp add: saved_def parent_def)
  have pre2: "[''icons'', ''a.txt''] \<noteq> [] \<and> ?ft [''icons'', ''a.txt''] = Some (File ?old)
      \<and> (\<forall>q\<in>set (dirs_to (parent [''icons'', ''a.txt''])). ?ft q = Some Dir)"
    by (simp add: saved_def parent_def)
  have pre3: "?fe (fst ([''assets'', ''images'', ''Stop_icon.png''], icon_stop)) = Some (File ?old)
      \<and> (\<forall>q\<in>set (dirs_to (parent (fst ([''assets'', ''images'', ''Stop_icon.png''], icon_stop)))).
            ?fe q = Some Dir)"
    by (simp add: saved_def parent_def)
  from C8_save_overwrites_and_rerun_is_identical
         [where target = "[''icons'', ''a.png'']" and fs = ?fs and old = ?old and S = ?S
            and img = "canvas icon_stop", THEN conjunct1, rule_format, OF pre1] yes
  have s1: "u_save ?S (canvas icon_stop) [''icons'', ''a.png''] ?fs
     = Inr [[''icons''] \<mapsto> Dir, [''icons'', ''a.png''] \<mapsto> saved [''icons'', ''a.png''] (canvas icon_stop)]"
    by simp
  from C8_save_overwrites_and_rerun_is_identical
         [where target = "[''icons'', ''a.txt'']" and fs = ?ft and old = ?old and S = ?S
            and img = "canvas icon_stop", THEN conjunct1, rule_format, OF pre2] no
  have s2: "u_save ?S (canvas icon_stop) [''icons'', ''a.txt''] ?ft = Inl ValueError"
    by simp
  from C8_save_overwrites_and_rerun_is_identical
         [where fs = ?fe and old = ?old and S = ?S,
          THEN conjunct2, THEN conjunct1, rule_format, OF e pre3]
  have s3: "u_save ?S (canvas icon_stop) [''assets'', ''images'', ''Stop_icon.png''] ?fe
     = Inr [[''assets''] \<mapsto> Dir, [''assets'', ''images''] \<mapsto> Dir,
       [''assets'', ''images'', ''Stop_icon.png'']
          \<mapsto> saved [''assets'', ''images'', ''Stop_icon.png''] (canvas icon_stop)]"
    by simp
  from C8_save_overwrites_and_rerun_is_identical
         [where S = ?S and w = ?w and ?w1.0 = w1, THEN conjunct2, THEN conjunct2] run
  have s4: "\<exists>w2. main ?S w1 = Inr w2 \<and> w_files w2 = w_files w1" by blast
  from s1 s2 s3 s4 run show ?thesis by blast
qed

text \<open>
  C9: the entry point succeeds exactly when every registered target is writable in the
  tree it starts from, and a successful run has called the builder of every entry once,
  in registry order (one canvas allocated per entry), has left at each registered target
  the encoding of that entry's canvas, and has printed one line per entry, in registry
  order: \<^verbatim>\<open>generated\<close> followed by the target's path relative to \<^verbatim>\<open>ROOT\<close>. The 25
  targets are pairwise different.
\<close>

theorem C9_main_runs_registry_in_order:
  "((\<exists>w'. main S w = Inr w') \<longleftrightarrow> (\<forall>e\<in>set ICON_BUILD. writable (w_files w) (fst e)))
   \<and> (\<forall>w'. main S w = Inr w' \<longrightarrow>
        w_stdout w' =
          w_stdout w @ map (\<lambda>(target, builder). ''generated '' @ as_posix target) ICON_BUILD
      \<and> w_heap w' = w_heap w @ map (\<lambda>(target, builder). canvas builder) ICON_BUILD
      \<and> (\<forall>e\<in>set ICON_BUILD. w_files w' (fst e) = Some (saved (fst e) (canvas (snd e)))))
   \<and> distinct (map fst ICON_BUILD) \<and> length ICON_BUILD = 25"
proof (intro conjI allI impI)
  show "(\<exists>w'. main S w = Inr w') \<longleftrightarrow> (\<forall>e\<in>set ICON_BUILD. writable (w_files w) (fst e))"
    by (rule main_ok_iff)
  show "distinct (map fst ICON_BUILD)" by (rule ICON_BUILD_targets(3))
  show "length ICON_BUILD = 25" by (simp add: ICON_BUILD_def)
next
  fix w' assume run: "main S w = Inr w'"
  show "w_stdout w' =
          w_stdout w @ map (\<lambda>(target, builder). ''generated '' @ as_posix target) ICON_BUILD"
    using run by (rule main_result(2))
  show "w_heap w' = w_heap w @ map (\<lambda>(target, builder). canvas builder) ICON_BUILD"
    using run by (rule main_result(1))
  show "\<forall>e\<in>set ICON_BUILD. w_files w' (fst e) = Some (saved (fst e) (canvas (snd e)))"
    using main_result(3) [OF run] by blast
qed


text \<open>
  C9 on a run from an empty tree with nothing printed yet: the run succeeds, allocates 25
  canvases and prints these 25 lines.
\<close>

theorem C9_main_runs_registry_in_order_witness:
  "\<exists>w'. main \<lparr>sv_format = (\<lambda>_. None), sv_accepts = (\<lambda>_ _. False)\<rparr>
       \<lparr>w_heap = [], w_files = Map.empty, w_stdout = []\<rparr> = Inr w'
     \<and> length (w_heap w') = 25
     \<and> w_stdout w' = [
       ''generated assets/images/icon-set/Singing.png'',
       ''generated assets/images/icon-set/Lyrics.png'',
       ''generated assets/images/icon-set/sessions.png'',
       ''generated assets/images/icon-set/Profile.png'',
       ''generated assets/images/icon-set/Live_mode.png'',
       ''generated assets/images/icon-set/Lyrics_sync.png'',
       ''generated assets/images/icon-set/Feedback_intensity_high.png'',
       ''generated assets/images/icon-set/Feedback_intensity_low.png'',
       ''generated assets/images/icon-set/Mindfullness_voice.png'',
       ''generated assets/images/icon-set/Language_accent.png'',
       ''generated assets/images/icon-set/howto-icon.png'',
       ''generated assets/images/record_icon.png'',
       ''generated assets/images/Stop_icon.png'',
       ''generated assets/images/metronome_icon.png'',
       ''generated assets/images/flag_icon.png'',
       ''generated assets/images/bpm_icon.png'',
       ''generated assets/images/count_in_icon.png'',
       ''generated assets/images/lyrics_flow_speed_icon.png'',
       ''generated assets/images/about_icon.png'',
       ''generated assets/images/nosong_state.png'',
       ''generated assets/images/Female.png'',
       ''generated assets/images/Male.png'',
       ''generated assets/images/two_beats.png'',
       ''generated assets/images/four_beats.png'',
       ''generated assets/images/EasePocket.png'']"
proof -
  let ?S = "\<lparr>sv_format = (\<lambda>_. None), sv_accepts = (\<lambda>_ _. False)\<rparr>"
  let ?w = "\<lparr>w_heap = [], w_files = Map.empty, w_stdout = []\<rparr>"
  note c9 = C9_main_runs_registry_in_order [where S = ?S and w = ?w]
  from c9 [THEN conjunct1] empty_tree_writable obtain w' where run: "main ?S ?w = Inr w'"
    by blast
  from c9 [THEN conjunct2, THEN conjunct1] run
  have out: "w_stdout w' =
          w_stdout ?w @ map (\<lambda>(target, builder). ''generated '' @ as_posix target) ICON_BUILD"
    and heap: "w_heap w' = w_heap ?w @ map (\<lambda>(target, builder). canvas builder) ICON_BUILD"
    by blast+
  have "length (w_heap w') = 25"
    unfolding heap by (simp add: ICON_BUILD_def)
  moreover have "w_stdout w' = [
       ''generated assets/images/icon-set/Singing.png'',
       ''generated assets/images/icon-set/Lyrics.png'',
       ''generated assets/images/icon-set/sessions.png'',
       ''generated assets/images/icon-set/Profile.png'',
       ''generated assets/images/icon-set/Live_mode.png'',
       ''generated assets/images/icon-set/Lyrics_sync.png'',
       ''generated assets/images/icon-set/Feedback_intensity_high.png'',
       ''generated assets/images/icon-set/Feedback_intensity_low.png'',
       ''generated assets/images/icon-set/Mindfullness_voice.png'',
       ''generated assets/images/icon-set/Language_accent.png'',
       ''generated assets/images/icon-set/howto-icon.png'',
       ''generated assets/images/record_icon.png'',
       ''generated assets/images/Stop_icon.png'',
       ''generated assets/images/metronome_icon.png'',
       ''generated assets/images/flag_icon.png'',
       ''generated assets/images/bpm_icon.png'',
       ''generated assets/images/count_in_icon.png'',
       ''generated assets/images/lyrics_flow_speed_icon.png'',
       ''generated assets/images/about_icon.png'',
       ''generated assets/images/nosong_state.png'',
       ''generated assets/images/Female.png'',
       ''generated assets/images/Male.png'',
       ''generated assets/images/two_beats.png'',
       ''generated assets/images/four_beats.png'',
       ''generated assets/images/EasePocket.png'']"
    unfolding out by (simp add: ICON_BUILD_def ICON_SET_def ASSETS_def)
  ultimately show ?thesis using run by blast
qed



subsection \<open>The beat-count builder\<close>

lemma icon_beats_calls:
  "im_calls (canvas (icon_beats count)) =
     map (\<lambda>i. Ellipse (u_w (real_of_int (256 - (count - 1) * 70 div 2 + i * 70 - 22)), u_w 220,
                      u_w (real_of_int (256 - (count - 1) * 70 div 2 + i * 70 + 22)), u_w 264)
                (Some (if i = count - 1 then ORANGE else SOFT_WHITE)) None 1) [0..count - 1]
     @ [Line [u_w 130, u_w 320, u_w 382, u_w 320] (Some WHITE) (u_stroke 18) None]"
  by (simp add: canvas_def icon_beats_def draw_defs Let_def run_for_loop_paint_single)

lemma icon_beats_markers:
  "markers (canvas (icon_beats count)) =
     map (\<lambda>i. Ellipse (4 * (256 + 70 * i - 35 * (count - 1) - 22), 880,
                      4 * (256 + 70 * i - 35 * (count - 1) + 22), 1056)
                (Some (if i = count - 1 then ORANGE else SOFT_WHITE)) None 1) [0..count - 1]"
proof -
  have "(count - 1) * 70 div 2 = 35 * (count - 1)" by simp
  then show ?thesis
    unfolding markers_def icon_beats_calls u_w_of_int
    by (simp add: filter_map comp_def algebra_simps)
qed

lemma nth_upto_0: "i < nat n \<Longrightarrow> [0..n - 1] ! i = int i"
  by (simp add: nth_upto)

lemma length_upto_0: "length [0..n - 1] = nat n"
  by simp


text \<open>
  C3: for the beat-count builder called with 2, and with 4, the ellipses on the canvas
  are exactly \<open>count\<close> markers; marker \<open>i\<close> (from 0) is centred at the logical abscissa
  \<open>256 + 70 * i - 35 * (count - 1)\<close>, so neighbouring centres are 70 logical units
  (\<open>2 * u_w 70\<close> in doubled canvas units) apart and the centres of markers \<open>i\<close> and
  \<open>count - 1 - i\<close> lie symmetrically about the canvas midpoint \<open>x = 256\<close>; all markers
  have the same size and height; the last marker is filled with \<open>ORANGE\<close>, every other
  one with \<open>SOFT_WHITE\<close>. The only other call is the white base line.
\<close>

theorem C3_beat_markers:
  assumes "count = 2 \<or> count = 4"
  shows "length (markers (canvas (icon_beats count))) = nat count
    \<and> (\<forall>i < nat count.
          markers (canvas (icon_beats count)) ! i =
            Ellipse (u_w (real_of_int (256 + 70 * int i - 35 * (count - 1) - 22)), u_w 220,
                     u_w (real_of_int (256 + 70 * int i - 35 * (count - 1) + 22)), u_w 264)
              (Some (if int i = count - 1 then ORANGE else SOFT_WHITE)) None 1)
    \<and> (\<forall>i < nat count - 1. \<exists>a b y.
          centre2 (markers (canvas (icon_beats count)) ! i) = Some (a, y)
        \<and> centre2 (markers (canvas (icon_beats count)) ! Suc i) = Some (b, y)
        \<and> b - a = 2 * u_w 70)
    \<and> (\<forall>i < nat count. \<exists>a b.
          centre2 (markers (canvas (icon_beats count)) ! i) = Some (a, u_w 220 + u_w 264)
        \<and> centre2 (markers (canvas (icon_beats count)) ! (nat count - 1 - i)) = Some (b, u_w 220 + u_w 264)
        \<and> a + b = 2 * (2 * u_w 256))
    \<and> fill_of (markers (canvas (icon_beats count)) ! (nat count - 1)) = Some ORANGE
    \<and> (\<forall>i < nat count - 1. fill_of (markers (canvas (icon_beats count)) ! i) = Some SOFT_WHITE)
    \<and> im_calls (canvas (icon_beats count)) =
        markers (canvas (icon_beats count))
        @ [Line [u_w 130, u_w 320, u_w 382, u_w 320] (Some WHITE) (u_stroke 18) None]"
proof -
  let ?ms = "markers (canvas (icon_beats count))"
  from assms have pos: "1 \<le> count" by auto
  have len: "length ?ms = nat count"
    unfolding icon_beats_markers by simp
  have nth: "?ms ! i = Ellipse (4 * (256 + 70 * int i - 35 * (count - 1) - 22), 880,
                      4 * (256 + 70 * int i - 35 * (count - 1) + 22), 1056)
                (Some (if int i = count - 1 then ORANGE else SOFT_WHITE)) None 1"
    if "i < nat count" for i
    unfolding icon_beats_markers using that by (simp add: nth_upto)
  have c2: "centre2 (?ms ! i) = Some (8 * (256 + 70 * int i - 35 * (count - 1)), 1936)"
    if "i < nat count" for i
    unfolding nth [OF that] by (simp add: centre2_def)
  show ?thesis
  proof (intro conjI allI impI)
    show "length ?ms = nat count" by (fact len)
  next
    fix i assume "i < nat count"
    then show "?ms ! i =
            Ellipse (u_w (real_of_int (256 + 70 * int i - 35 * (count - 1) - 22)), u_w 220,
                     u_w (real_of_int (256 + 70 * int i - 35 * (count - 1) + 22)), u_w 264)
              (Some (if int i = count - 1 then ORANGE else SOFT_WHITE)) None 1"
      unfolding u_w_of_int by (simp add: nth)
  next
    fix i assume i: "i < nat count - 1"
    then have "i < nat count" "Suc i < nat count" by simp_all
    then show "\<exists>a b y. centre2 (?ms ! i) = Some (a, y)
        \<and> centre2 (?ms ! Suc i) = Some (b, y) \<and> b - a = 2 * u_w 70"
      by (simp add: c2)
  next
    fix i assume i: "i < nat count"
    then have j: "nat count - 1 - i < nat count" by simp
    have "int (nat count - 1 - i) = count - 1 - int i" using i pos by simp
    then have "8 * (256 + 70 * int i - 35 * (count - 1))
        + 8 * (256 + 70 * int (nat count - 1 - i) - 35 * (count - 1)) = 2 * (2 * u_w 256)"
      by simp
    with c2 [OF i] c2 [OF j]
    show "\<exists>a b. centre2 (?ms ! i) = Some (a, u_w 220 + u_w 264)
        \<and> centre2 (?ms ! (nat count - 1 - i)) = Some (b, u_w 220 + u_w 264)
        \<and> a + b = 2 * (2 * u_w 256)"
      by simp
  next
    have "nat count - 1 < nat count" using pos by simp
    from nth [OF this] pos show "fill_of (?ms ! (nat count - 1)) = Some ORANGE"
      by simp
  next
    fix i assume i: "i < nat count - 1"
    then have "i < nat count" and "int i \<noteq> count - 1" by auto
    with nth [of i] show "fill_of (?ms ! i) = Some SOFT_WHITE" by simp
  next
    show "im_calls (canvas (icon_beats count)) =
        ?ms @ [Line [u_w 130, u_w 320, u_w 382, u_w 320] (Some WHITE) (u_stroke 18) None]"
      unfolding markers_def icon_beats_calls by (simp add: filter_map comp_def)
  qed
qed


text \<open>
  C3 at \<open>count = 2\<close>: two markers, centred at the logical abscissas 221 and 291 (the boxes
  are in canvas units), the first muted and the second accented.
\<close>

theorem C3_beat_markers_witness:
  "length (markers (canvas (icon_beats 2))) = 2
   \<and> markers (canvas (icon_beats 2)) ! 0 = Ellipse (796, 880, 972, 1056) (Some SOFT_WHITE) None 1
   \<and> markers (canvas (icon_beats 2)) ! 1 = Ellipse (1076, 880, 1252, 1056) (Some ORANGE) None 1"
proof -
  note c3 = C3_beat_markers [of 2, OF disjI1 [OF refl]]
  from c3 have len: "length (markers (canvas (icon_beats 2))) = nat 2"
    and nth: "\<forall>i < nat 2. markers (canvas (icon_beats 2)) ! i =
            Ellipse (u_w (real_of_int (256 + 70 * int i - 35 * (2 - 1) - 22)), u_w 220,
                     u_w (real_of_int (256 + 70 * int i - 35 * (2 - 1) + 22)), u_w 264)
              (Some (if int i = 2 - 1 then ORANGE else SOFT_WHITE)) None 1"
    by blast+
  from nth [rule_format, of 0] nth [rule_format, of 1] len show ?thesis
    by (simp add: ORANGE_def SOFT_WHITE_def)
qed

subsection \<open>The boolean builders\<close>

lemma icon_gender_calls:
  "im_calls (canvas (icon_gender female)) =
     [Ellipse (u_w 180, u_w 96, u_w 332, u_w 248) None (Some WHITE) (u_stroke 24),
      (if female then Arc (u_w 158, u_w 90, u_w 354, u_w 286) 205 335 (Some BLUE) (u_stroke 30)
       else RoundedRectangle (u_w 176, u_w 90, u_w 336, u_w 156) (u_w 26) (Some BLUE) None 1),
      RoundedRectangle (u_w 108, u_w 252, u_w 404, u_w 418) (u_w 90) None (Some WHITE) (u_stroke 24)]"
  by (simp add: canvas_def icon_gender_def draw_defs)

lemma icon_feedback_calls:
  "im_calls (canvas (icon_feedback high)) =
     map (\<lambda>(i, h).
            RoundedRectangle
              (u_w 112 + int i * (u_w 54 + u_w 34), u_w 390 - h,
               u_w 112 + int i * (u_w 54 + u_w 34) + u_w 54, u_w 390)
              (u_w 16) (Some (if i = (if high then 3 else 0) then ORANGE else SOFT_WHITE)) None 1)
         (List.enumerate 0
            (if high then [u_w 120, u_w 170, u_w 230, u_w 280]
             else [u_w 260, u_w 210, u_w 160, u_w 110]))"
  by (cases high) (simp_all add: canvas_def icon_feedback_def draw_defs)

text \<open>
  C4 as stated fails for the feedback-intensity builder: its second bar is not the accent
  bar for either value of the boolean (it is \<open>SOFT_WHITE\<close> in both), and yet it differs
  between the two values: its top edge is at 880 (height \<open>u_w 170\<close>) when \<open>high\<close> and at
  720 (height \<open>u_w 210\<close>) otherwise.
\<close>

theorem C4_feedback_bars_all_change:
  "im_calls (canvas (icon_feedback True)) ! 1 =
     RoundedRectangle (800, 880, 1016, 1560) 64 (Some SOFT_WHITE) None 1
   \<and> im_calls (canvas (icon_feedback False)) ! 1 =
     RoundedRectangle (800, 720, 1016, 1560) 64 (Some SOFT_WHITE) None 1
   \<and> im_calls (canvas (icon_feedback True)) ! 1 \<noteq> im_calls (canvas (icon_feedback False)) ! 1"
  by (simp add: icon_feedback_calls)

text \<open>
  C4, amended. The gender builder makes three calls, and the boolean selects the shape of
  exactly the second one: a \<open>BLUE\<close> arc when \<open>female\<close>, a \<open>BLUE\<close> filled rounded
  rectangle otherwise; the first and the third call are the same for both values.
  The feedback-intensity builder draws four bars; the boolean selects which single bar
  is \<open>ORANGE\<close> (the fourth when \<open>high\<close>, the first otherwise, the other three being
  \<open>SOFT_WHITE\<close>) and also the heights of all four bars (120, 170, 230, 280 logical
  units when \<open>high\<close>; 260, 210, 160, 110 otherwise). Each bar keeps its left and right
  edge, its base line, its corner radius and its unit outline width between the two
  values, but no bar is the same call for both values.
\<close>

theorem C4_boolean_builders:
  "im_calls (canvas (icon_gender female)) =
     [Ellipse (u_w 180, u_w 96, u_w 332, u_w 248) None (Some WHITE) (u_stroke 24),
      (if female then Arc (u_w 158, u_w 90, u_w 354, u_w 286) 205 335 (Some BLUE) (u_stroke 30)
       else RoundedRectangle (u_w 176, u_w 90, u_w 336, u_w 156) (u_w 26) (Some BLUE) None 1),
      RoundedRectangle (u_w 108, u_w 252, u_w 404, u_w 418) (u_w 90) None (Some WHITE) (u_stroke 24)]
   \<and> im_calls (canvas (icon_gender True)) =
       (im_calls (canvas (icon_gender False)))
         [1 := Arc (u_w 158, u_w 90, u_w 354, u_w 286) 205 335 (Some BLUE) (u_stroke 30)]
   \<and> im_calls (canvas (icon_feedback high)) =
       map (\<lambda>(i, h).
              RoundedRectangle
                (u_w 112 + int i * (u_w 54 + u_w 34), u_w 390 - h,
                 u_w 112 + int i * (u_w 54 + u_w 34) + u_w 54, u_w 390)
                (u_w 16) (Some (if i = (if high then 3 else 0) then ORANGE else SOFT_WHITE)) None 1)
           (List.enumerate 0
              (if high then [u_w 120, u_w 170, u_w 230, u_w 280]
               else [u_w 260, u_w 210, u_w 160, u_w 110]))
   \<and> map fill_of (im_calls (canvas (icon_feedback True))) =
       [Some SOFT_WHITE, Some SOFT_WHITE, Some SOFT_WHITE, Some ORANGE]
   \<and> map fill_of (im_calls (canvas (icon_feedback False))) =
       [Some ORANGE, Some SOFT_WHITE, Some SOFT_WHITE, Some SOFT_WHITE]
   \<and> map2 (\<lambda>a b. a = b) (im_calls (canvas (icon_feedback True)))
        (im_calls (canvas (icon_feedback False))) = [False, False, False, False]"
proof (intro conjI)
  show "im_calls (canvas (icon_gender female)) =
     [Ellipse (u_w 180, u_w 96, u_w 332, u_w 248) None (Some WHITE) (u_stroke 24),
      (if female then Arc (u_w 158, u_w 90, u_w 354, u_w 286) 205 335 (Some BLUE) (u_stroke 30)
       else RoundedRectangle (u_w 176, u_w 90, u_w 336, u_w 156) (u_w 26) (Some BLUE) None 1),
      RoundedRectangle (u_w 108, u_w 252, u_w 404, u_w 418) (u_w 90) None (Some WHITE) (u_stroke 24)]"
    by (rule icon_gender_calls)
  show "im_calls (canvas (icon_gender True)) =
       (im_calls (canvas (icon_gender False)))
         [1 := Arc (u_w 158, u_w 90, u_w 354, u_w 286) 205 335 (Some BLUE) (u_stroke 30)]"
    by (simp add: icon_gender_calls)
  show "im_calls (canvas (icon_feedback high)) =
       map (\<lambda>(i, h).
              RoundedRectangle
                (u_w 112 + int i * (u_w 54 + u_w 34), u_w 390 - h,
                 u_w 112 + int i * (u_w 54 + u_w 34) + u_w 54, u_w 390)
                (u_w 16) (Some (if i = (if high then 3 else 0) then ORANGE else SOFT_WHITE)) None 1)
           (List.enumerate 0
              (if high then [u_w 120, u_w 170, u_w 230, u_w 280]
               else [u_w 260, u_w 210, u_w 160, u_w 110]))"
    by (rule icon_feedback_calls)
  show "map fill_of (im_calls (canvas (icon_feedback True))) =
       [Some SOFT_WHITE, Some SOFT_WHITE, Some SOFT_WHITE, Some ORANGE]"
    by (simp add: icon_feedback_calls)
  show "map fill_of (im_calls (canvas (icon_feedback False))) =
       [Some ORANGE, Some SOFT_WHITE, Some SOFT_WHITE, Some SOFT_WHITE]"
    by (simp add: icon_feedback_calls)
  show "map2 (\<lambda>a b. a = b) (im_calls (canvas (icon_feedback True)))
        (im_calls (canvas (icon_feedback False))) = [False, False, False, False]"
    by (simp add: icon_feedback_calls ORANGE_def SOFT_WHITE_def)
qed


section \<open>Properties of the web asset optimizer\<close>

subsection \<open>Variant paths and the steps of the optimizer\<close>

lemma rfind_png: "rfind (s @ ''.png'') (CHR ''.'') = int (length s)"
  by (simp add: rfind_def)

lemma stem_png: "s \<noteq> [] \<Longrightarrow> stem (s @ ''.png'') = s"
  by (simp add: stem_def rfind_png Let_def)

lemma stem_web_png_neq: "stem nm @ ''.web.png'' \<noteq> nm"
proof
  assume eq: "stem nm @ ''.web.png'' = nm"
  let ?i = "rfind nm (CHR ''.'')"
  show False
  proof (cases "0 < ?i \<and> ?i < int (length nm) - 1")
    case False
    then have "stem nm = nm" unfolding stem_def Let_def by (rule if_not_P)
    with eq show False by simp
  next
    case True
    then have st: "stem nm = take (nat ?i) nm" unfolding stem_def Let_def by (rule if_P)
    from True have "nat ?i \<le> length nm" by linarith
    then have len: "length (take (nat ?i) nm) = nat ?i" by simp
    from eq st have "nm = (take (nat ?i) nm @ ''.web'') @ ''.png''" by simp
    then have "?i = int (length (take (nat ?i) nm @ ''.web''))"
      using rfind_png [of "take (nat ?i) nm @ ''.web''"] by simp
    with len True show False by simp
  qed
qed

lemma with_name_variant:
  "src \<noteq> [] \<Longrightarrow>
     with_name src (stem (name src) @ ''.web.png'') = Inr (parent src @ [stem (name src) @ ''.web.png''])"
  by (simp add: with_name_def parent_def)

lemma variant_neq_source:
  "src \<noteq> [] \<Longrightarrow> parent src @ [stem (name src) @ ''.web.png''] \<noteq> src"
proof
  assume "src \<noteq> []" and eq: "parent src @ [stem (name src) @ ''.web.png''] = src"
  then have "last (parent src @ [stem (name src) @ ''.web.png'']) = last src" by simp
  with \<open>src \<noteq> []\<close> have "stem (name src) @ ''.web.png'' = name src" by (simp add: name_def)
  with stem_web_png_neq show False by blast
qed

lemma optimize_fails:
  "src = [] \<Longrightarrow> optimize P src fs = Inl ValueError"
  "src \<noteq> [] \<Longrightarrow> map_of fs src = None \<Longrightarrow> optimize P src fs = Inl FileNotFoundError"
  "src \<noteq> [] \<Longrightarrow> map_of fs src = Some Dir \<Longrightarrow> optimize P src fs = Inl IsADirectoryError"
  "src \<noteq> [] \<Longrightarrow> map_of fs src = Some (File content) \<Longrightarrow> pil_open P content = None \<Longrightarrow>
     optimize P src fs = Inl UnidentifiedImageError"
  by (simp_all add: optimize_def with_name_def)

text \<open>
  What \<^verbatim>\<open>optimize\<close> does on a source that is a regular file Pillow identifies: it fails
  when the conversion, the opening of the variant path or the writer fails, and otherwise
  leaves the smaller of the re-encoding and the source at the variant path.
\<close>

lemma optimize_on_picture:
  assumes src: "src \<noteq> []"
    and content: "map_of fs src = Some (File content)"
    and pic: "pil_open P content = Some pic"
  shows "optimize P src fs =
     (let mode = (if ''A'' \<in> set (pic_bands pic) then ''RGBA'' else ''RGB'');
          dst = parent src @ [stem (name src) @ ''.web.png'']
      in if \<not> pil_converts P pic mode then Inl OSError
         else if map_of fs dst = Some Dir then Inl IsADirectoryError
         else case pil_save_png P (Convert pic mode) of
                None \<Rightarrow> Inl OSError
              | Some enc \<Rightarrow>
                  if length content < length enc
                  then Inr ((dst, length content, length content),
                            AList.update dst (File content) (AList.update dst (File enc) fs))
                  else Inr ((dst, length content, length enc), AList.update dst (File enc) fs))"
proof (cases "''A'' \<in> set (pic_bands pic)")
  case True
  with variant_neq_source [OF src] content pic show ?thesis
    by (simp add: optimize_def with_name_variant [OF src] convert_def save_png_def write_bytes_def
        stat_size_def copyfile_def update_conv' Let_def split: option.splits)
next
  case False
  with variant_neq_source [OF src] content pic show ?thesis
    by (simp add: optimize_def with_name_variant [OF src] convert_def save_png_def write_bytes_def
        stat_size_def copyfile_def update_conv' Let_def split: option.splits)
qed

lemma optimize_only_if:
  assumes "optimize P src fs = Inr r"
  shows "src \<noteq> []"
    and "\<exists>content pic. map_of fs src = Some (File content) \<and> pil_open P content = Some pic"
proof -
  show src: "src \<noteq> []" using assms optimize_fails(1) [of src P fs] by auto
  show ex: "\<exists>content pic. map_of fs src = Some (File content) \<and> pil_open P content = Some pic"
  proof (cases "map_of fs src")
    case None
    with assms optimize_fails(2) [OF src, of fs P] show ?thesis by simp
  next
    case (Some n)
    show ?thesis
    proof (cases n)
      case Dir
      with Some assms optimize_fails(3) [OF src, of fs P] show ?thesis by simp
    next
      case (File content)
      with Some have c: "map_of fs src = Some (File content)" by simp
      show ?thesis
      proof (cases "pil_open P content")
        case None
        with assms optimize_fails(4) [OF src c] show ?thesis by simp
      next
        case (Some pic)
        with c show ?thesis by blast
      qed
    qed
  qed
qed

lemma optimize_no_zero_division: "optimize P src fs \<noteq> Inl ZeroDivisionError"
proof (cases "optimize P src fs")
  case (Inr r)
  then show ?thesis by simp
next
  case (Inl e)
  show ?thesis
  proof (cases "src = []")
    case True
    then show ?thesis by (simp add: optimize_fails(1))
  next
    case src: False
    show ?thesis
    proof (cases "map_of fs src")
      case None
      with src show ?thesis by (simp add: optimize_fails(2))
    next
      case (Some n)
      show ?thesis
      proof (cases n)
        case Dir
        with Some src show ?thesis by (simp add: optimize_fails(3))
      next
        case (File content)
        with Some have c: "map_of fs src = Some (File content)" by simp
        show ?thesis
        proof (cases "pil_open P content")
          case None
          with src c show ?thesis by (simp add: optimize_fails(4))
        next
          case (Some pic)
          show ?thesis
            unfolding optimize_on_picture [OF src c Some]
            by (simp add: Let_def split: option.splits)
        qed
      qed
    qed
  qed
qed

lemma optimize_result:
  assumes "optimize P src fs = Inr ((dst, before, after), fs')"
  shows "\<exists>content pic enc.
           src \<noteq> [] \<and> map_of fs src = Some (File content) \<and> pil_open P content = Some pic
         \<and> pil_converts P pic (if ''A'' \<in> set (pic_bands pic) then ''RGBA'' else ''RGB'')
         \<and> pil_save_png P (Convert pic (if ''A'' \<in> set (pic_bands pic) then ''RGBA'' else ''RGB''))
             = Some enc
         \<and> dst = parent src @ [stem (name src) @ ''.web.png''] \<and> dst \<noteq> src
         \<and> map_of fs dst \<noteq> Some Dir
         \<and> before = length content
         \<and> after = (if length content < length enc then length content else length enc)
         \<and> map_of fs' = (map_of fs)(dst \<mapsto> File (if length content < length enc then content else enc))"
proof -
  note oi = optimize_only_if [OF assms]
  from oi(2) obtain content pic where c: "map_of fs src = Some (File content)"
    and p: "pil_open P content = Some pic" by blast
  let ?mode = "if ''A'' \<in> set (pic_bands pic) then ''RGBA'' else ''RGB''"
  let ?dst = "parent src @ [stem (name src) @ ''.web.png'']"
  note eq = assms [unfolded optimize_on_picture [OF oi(1) c p] Let_def]
  from eq have cv: "pil_converts P pic ?mode"
    by (auto split: if_splits)
  from eq cv have nd: "map_of fs ?dst \<noteq> Some Dir"
    by (auto split: if_splits)
  from eq cv nd obtain enc where enc: "pil_save_png P (Convert pic ?mode) = Some enc"
    by (cases "pil_save_png P (Convert pic ?mode)") auto
  from eq cv nd enc have
    r: "dst = ?dst" "before = length content"
       "after = (if length content < length enc then length content else length enc)"
       "fs' = (if length content < length enc
               then AList.update ?dst (File content) (AList.update ?dst (File enc) fs)
               else AList.update ?dst (File enc) fs)"
    by (auto split: if_splits)
  from r(4) have m: "map_of fs' = (map_of fs)(?dst \<mapsto> File (if length content < length enc then content else enc))"
    by (auto simp: update_conv')
  from variant_neq_source [OF oi(1)] have ne: "?dst \<noteq> src" .
  from oi(1) c p cv enc r(1,2,3) m ne nd show ?thesis
    by (intro exI [of _ content] exI [of _ pic] exI [of _ enc]) simp
qed

lemma optimize_after_le:
  "optimize P src fs = Inr ((dst, before, after), fs') \<Longrightarrow> after \<le> before"
  by (drule optimize_result) (auto simp: Let_def)

lemma run_loop_step:
  "run_loop P (src # rest) (tb, ta, n) (fs, out) =
     (case optimize P src fs of
        Inl e \<Rightarrow> Inl e
      | Inr ((dst, before, after), fs') \<Rightarrow>
          run_loop P rest (tb + before, ta + after, n + 1)
            (fs', out @ [FileLine (as_posix src) (as_posix dst) before after
                           (if before = 0 then 0 else (1 - real after / real before) * 100)]))"
  by (auto simp: truediv_def split: sum.splits)

lemma run_loop_no_zero_division:
  "run_loop P srcs (tb, ta, n) (fs, out) \<noteq> Inl ZeroDivisionError"
proof (induction srcs arbitrary: tb ta n fs out)
  case Nil
  show ?case by simp
next
  case (Cons src rest)
  show ?case
  proof (cases "optimize P src fs")
    case (Inl e)
    with optimize_no_zero_division [of P src fs] show ?thesis
      unfolding run_loop_step by simp
  next
    case (Inr r)
    obtain dst before after fs' where "r = ((dst, before, after), fs')"
      by (metis prod.exhaust)
    with Inr Cons.IH show ?thesis
      unfolding run_loop_step by simp
  qed
qed

lemma run_loop_result:
  assumes "run_loop P srcs (tb, ta, n) (fs, out) = Inr ((tb', ta', n'), fs', out')"
  shows "\<exists>lines. out' = out @ lines \<and> length lines = length srcs \<and> n' = n + length srcs
           \<and> (\<forall>l\<in>set lines. \<exists>s d b a.
                 l = FileLine s d b a (if b = 0 then 0 else (1 - real a / real b) * 100) \<and> a \<le> b)"
  using assms
proof (induction srcs arbitrary: tb ta n fs out)
  case Nil
  then show ?case by simp
next
  case (Cons src rest)
  from Cons.prems obtain dst before after fs1 where
    opt: "optimize P src fs = Inr ((dst, before, after), fs1)"
    unfolding run_loop_step by (auto split: sum.splits)
  let ?line = "FileLine (as_posix src) (as_posix dst) before after
                 (if before = 0 then 0 else (1 - real after / real before) * 100)"
  from Cons.prems opt have rest:
    "run_loop P rest (tb + before, ta + after, n + 1) (fs1, out @ [?line]) = Inr ((tb', ta', n'), fs', out')"
    unfolding run_loop_step by simp
  from Cons.IH [OF rest] obtain lines where
    l: "out' = (out @ [?line]) @ lines" "length lines = length rest" "n' = n + 1 + length rest"
       "\<forall>l\<in>set lines. \<exists>s d b a.
                 l = FileLine s d b a (if b = 0 then 0 else (1 - real a / real b) * 100) \<and> a \<le> b"
    by blast
  have "\<exists>s d b a. ?line = FileLine s d b a (if b = 0 then 0 else (1 - real a / real b) * 100) \<and> a \<le> b"
    using optimize_after_le [OF opt] by blast
  with l have "out' = out @ (?line # lines) \<and> length (?line # lines) = length (src # rest)
      \<and> n' = n + length (src # rest)
      \<and> (\<forall>l\<in>set (?line # lines). \<exists>s d b a.
                 l = FileLine s d b a (if b = 0 then 0 else (1 - real a / real b) * 100) \<and> a \<le> b)"
    by simp
  then show ?case by blast
qed

lemma run_eq:
  "run P sources (fs, out) =
     (case run_loop P sources (0, 0, 0) (fs, out @ [Header]) of
        Inl e \<Rightarrow> Inl e
      | Inr ((total_before, total_after, count), (fs', out')) \<Rightarrow>
          Inr (0, fs', out' @ [TotalLine count total_before total_after
                 (if total_before = 0 then 0
                  else (1 - real total_after / real total_before) * 100)]))"
  by (auto simp: run_def truediv_def split: sum.splits)


subsection \<open>Source selection, the size guard and the report\<close>

lemma discover_sources_iff:
  "p \<in> set (discover_sources fs) \<longleftrightarrow>
      p \<in> fst ` set fs \<and> strict_prefix IMAGES_ROOT p \<and> endswith (name p) ''.png''
      \<and> \<not> startswith (as_posix p) ''assets/images/web/''
      \<and> as_posix p \<notin> SKIP_EXACT
      \<and> \<not> endswith (name p) ''.web.png''"
proof -
  have "should_process p \<longleftrightarrow>
      \<not> startswith (as_posix p) ''assets/images/web/'' \<and> as_posix p \<notin> SKIP_EXACT
      \<and> \<not> endswith (name p) ''.web.png''"
    by (simp add: should_process_def SKIP_PREFIXES_def Let_def)
  then show ?thesis
    by (auto simp: discover_sources_def rglob_png_def Let_def)
qed

text \<open>
  C5: whenever \<^verbatim>\<open>optimize\<close> returns, the variant it leaves at \<open>dst\<close> is a regular file whose
  size is the reported \<open>after\<close>, never larger than the source (\<open>after \<le> before\<close>, where
  \<open>before\<close> is the size of the source), and the source is untouched. If the re-encoding
  Pillow wrote is larger than the source, the variant is byte for byte the source,
  \<open>after = before\<close>, and the line the report prints for this file carries the reduction
  0; otherwise the variant is the re-encoding. For a non-root source that is a regular
  file Pillow identifies and whose variant path is not a directory, \<^verbatim>\<open>optimize\<close> returns
  exactly when Pillow converts the picture and encodes the conversion; when one of the
  two raises, so does \<^verbatim>\<open>optimize\<close>, and no size is compared.
\<close>

theorem C5_variant_never_larger:
  "(\<forall>dst before after fs'. optimize P src fs = Inr ((dst, before, after), fs') \<longrightarrow>
      (\<exists>content pic enc v.
          map_of fs src = Some (File content) \<and> pil_open P content = Some pic
        \<and> pil_save_png P (Convert pic (if ''A'' \<in> set (pic_bands pic) then ''RGBA'' else ''RGB''))
            = Some enc
        \<and> before = length content
        \<and> map_of fs' dst = Some (File v) \<and> after = length v \<and> after \<le> before
        \<and> map_of fs' src = Some (File content)
        \<and> (length content < length enc \<longrightarrow>
              v = content \<and> after = before
            \<and> run_loop P [src] (tb, ta, n) (fs, out) =
                Inr ((tb + before, ta + before, n + 1), fs',
                     out @ [FileLine (as_posix src) (as_posix dst) before before 0]))
        \<and> (length enc \<le> length content \<longrightarrow> v = enc)))
   \<and> (src \<noteq> [] \<and> map_of fs src = Some (File content0) \<and> pil_open P content0 = Some pic0
        \<and> map_of fs (parent src @ [stem (name src) @ ''.web.png'']) \<noteq> Some Dir
      \<longrightarrow> ((\<exists>r. optimize P src fs = Inr r) \<longleftrightarrow>
              pil_converts P pic0 (if ''A'' \<in> set (pic_bands pic0) then ''RGBA'' else ''RGB'')
            \<and> pil_save_png P
                 (Convert pic0 (if ''A'' \<in> set (pic_bands pic0) then ''RGBA'' else ''RGB'')) \<noteq> None))"
proof (intro conjI allI impI)
  fix dst before after fs'
  assume opt: "optimize P src fs = Inr ((dst, before, after), fs')"
  from optimize_result [OF opt] obtain content pic enc where
    r: "src \<noteq> []" "map_of fs src = Some (File content)" "pil_open P content = Some pic"
       "dst \<noteq> src" "before = length content"
    and enc: "pil_save_png P (Convert pic (if ''A'' \<in> set (pic_bands pic) then ''RGBA'' else ''RGB''))
                = Some enc"
    and after: "after = (if length content < length enc then length content else length enc)"
    and fs': "map_of fs' = (map_of fs)(dst \<mapsto> File (if length content < length enc then content else enc))"
    by blast
  let ?v = "if length content < length enc then content else enc"
  have v: "map_of fs' dst = Some (File ?v)" "after = length ?v" "after \<le> before"
    and keep: "map_of fs' src = Some (File content)"
    using after r(2,4,5) unfolding fs' by auto
  have line: "run_loop P [src] (tb, ta, n) (fs, out) =
      Inr ((tb + before, ta + before, n + 1), fs',
           out @ [FileLine (as_posix src) (as_posix dst) before before 0])"
    if "length content < length enc"
    using that after r(5) opt unfolding run_loop_step by simp
  have big: "length content < length enc \<longrightarrow>
              ?v = content \<and> after = before
            \<and> run_loop P [src] (tb, ta, n) (fs, out) =
                Inr ((tb + before, ta + before, n + 1), fs',
                     out @ [FileLine (as_posix src) (as_posix dst) before before 0])"
    using line after r(5) by auto
  have small: "length enc \<le> length content \<longrightarrow> ?v = enc" by auto
  from r(2,3,5) enc v keep big small
  show "\<exists>content pic enc v.
          map_of fs src = Some (File content) \<and> pil_open P content = Some pic
        \<and> pil_save_png P (Convert pic (if ''A'' \<in> set (pic_bands pic) then ''RGBA'' else ''RGB''))
            = Some enc
        \<and> before = length content
        \<and> map_of fs' dst = Some (File v) \<and> after = length v \<and> after \<le> before
        \<and> map_of fs' src = Some (File content)
        \<and> (length content < length enc \<longrightarrow>
              v = content \<and> after = before
            \<and> run_loop P [src] (tb, ta, n) (fs, out) =
                Inr ((tb + before, ta + before, n + 1), fs',
                     out @ [FileLine (as_posix src) (as_posix dst) before before 0]))
        \<and> (length enc \<le> length content \<longrightarrow> v = enc)"
    by (intro exI [of _ content] exI [of _ pic] exI [of _ enc] exI [of _ ?v] conjI)
next
  assume a: "src \<noteq> [] \<and> map_of fs src = Some (File content0) \<and> pil_open P content0 = Some pic0
        \<and> map_of fs (parent src @ [stem (name src) @ ''.web.png'']) \<noteq> Some Dir"
  then have src: "src \<noteq> []" and c: "map_of fs src = Some (File content0)"
    and p: "pil_open P content0 = Some pic0"
    and nd: "map_of fs (parent src @ [stem (name src) @ ''.web.png'']) \<noteq> Some Dir"
    by blast+
  show "(\<exists>r. optimize P src fs = Inr r) \<longleftrightarrow>
              pil_converts P pic0 (if ''A'' \<in> set (pic_bands pic0) then ''RGBA'' else ''RGB'')
            \<and> pil_save_png P
                 (Convert pic0 (if ''A'' \<in> set (pic_bands pic0) then ''RGBA'' else ''RGB'')) \<noteq> None"
  proof (cases "''A'' \<in> set (pic_bands pic0)")
    case True
    show ?thesis
      unfolding optimize_on_picture [OF src c p] Let_def using nd True
      by (cases "pil_save_png P (Convert pic0 ''RGBA'')") simp_all
  next
    case False
    show ?thesis
      unfolding optimize_on_picture [OF src c p] Let_def using nd False
      by (cases "pil_save_png P (Convert pic0 ''RGB'')") simp_all
  qed
qed

text \<open>
  C5 on the fallback scenario: a source of 5 bytes without alpha band whose re-encoding
  has 6 bytes. The variant is the 5 bytes of the source and the report line carries the
  reduction 0. With a Pillow whose conversion raises, \<^verbatim>\<open>optimize\<close> does not return.
\<close>

theorem C5_variant_never_larger_witness:
  "optimize
     \<lparr>pil_open = (\<lambda>_. Some \<lparr>pic_bands = [''R'', ''G'', ''B''], pic_data = []\<rparr>),
      pil_converts = (\<lambda>_ _. True),
      pil_save_png = (\<lambda>_. Some [9, 9, 9, 9, 9, 9])\<rparr>
     [''assets'', ''images'', ''opaque.png'']
     [([''assets'', ''images'', ''opaque.png''], File [1, 2, 3, 4, 5])]
   = Inr (([''assets'', ''images'', ''opaque.web.png''], 5, 5),
          [([''assets'', ''images'', ''opaque.png''], File [1, 2, 3, 4, 5]),
           ([''assets'', ''images'', ''opaque.web.png''], File [1, 2, 3, 4, 5])])
   \<and> run_loop
     \<lparr>pil_open = (\<lambda>_. Some \<lparr>pic_bands = [''R'', ''G'', ''B''], pic_data = []\<rparr>),
      pil_converts = (\<lambda>_ _. True),
      pil_save_png = (\<lambda>_. Some [9, 9, 9, 9, 9, 9])\<rparr>
     [[''assets'', ''images'', ''opaque.png'']] (0, 0, 0)
     ([([''assets'', ''images'', ''opaque.png''], File [1, 2, 3, 4, 5])], [])
   = Inr ((5, 5, 1),
          [([''assets'', ''images'', ''opaque.png''], File [1, 2, 3, 4, 5]),
           ([''assets'', ''images'', ''opaque.web.png''], File [1, 2, 3, 4, 5])],
          [FileLine ''assets/images/opaque.png'' ''assets/images/opaque.web.png'' 5 5 0])
   \<and> \<not> (\<exists>r. optimize
     \<lparr>pil_open = (\<lambda>_. Some \<lparr>pic_bands = [''R'', ''G'', ''B''], pic_data = []\<rparr>),
      pil_converts = (\<lambda>_ _. False),
      pil_save_png = (\<lambda>_. Some [9, 9, 9, 9, 9, 9])\<rparr>
     [''assets'', ''images'', ''opaque.png'']
     [([''assets'', ''images'', ''opaque.png''], File [1, 2, 3, 4, 5])] = Inr r)"
proof -
  let ?pic = "\<lparr>pic_bands = [''R'', ''G'', ''B''], pic_data = []\<rparr>"
  let ?P = "\<lparr>pil_open = (\<lambda>_. Some ?pic), pil_converts = (\<lambda>_ _. True),
      pil_save_png = (\<lambda>_. Some [9, 9, 9, 9, 9, 9 :: nat])\<rparr>"
  let ?Q = "\<lparr>pil_open = (\<lambda>_. Some ?pic), pil_converts = (\<lambda>_ _. False),
      pil_save_png = (\<lambda>_. Some [9, 9, 9, 9, 9, 9 :: nat])\<rparr>"
  let ?src = "[''assets'', ''images'', ''opaque.png'']"
  let ?dst = "[''assets'', ''images'', ''opaque.web.png'']"
  let ?fs = "[(?src, File [1, 2, 3, 4, 5 :: nat])]"
  let ?fs' = "[(?src, File [1, 2, 3, 4, 5 :: nat]), (?dst, File [1, 2, 3, 4, 5 :: nat])]"
  have st: "stem (name ?src) = ''opaque''"
    using stem_png [of "''opaque''"] by (simp add: name_def)
  have opt: "optimize ?P ?src ?fs = Inr ((?dst, 5, 5), ?fs')"
    by (simp add: optimize_def with_name_def st convert_def save_png_def write_bytes_def
        stat_size_def copyfile_def)
  from C5_variant_never_larger [where P = ?P and src = ?src and fs = ?fs and tb = 0 and ta = 0
      and n = 0 and out = "[]", THEN conjunct1, rule_format, OF opt]
  obtain content pic enc v where
    c: "map_of ?fs ?src = Some (File content)" "pil_open ?P content = Some pic"
    and e: "pil_save_png ?P (Convert pic (if ''A'' \<in> set (pic_bands pic) then ''RGBA'' else ''RGB''))
              = Some enc"
    and l: "length content < length enc \<longrightarrow>
              v = content \<and> (5::nat) = 5
            \<and> run_loop ?P [?src] (0, 0, 0) (?fs, []) =
                Inr ((0 + 5, 0 + 5, 0 + 1), ?fs',
                     [] @ [FileLine (as_posix ?src) (as_posix ?dst) 5 5 0])"
    by blast
  from c(1) have "content = [1, 2, 3, 4, 5]" by simp
  moreover from e have "enc = [9, 9, 9, 9, 9, 9]" by simp
  ultimately have loop: "run_loop ?P [?src] (0, 0, 0) (?fs, []) =
      Inr ((5, 5, 1), ?fs', [FileLine ''assets/images/opaque.png'' ''assets/images/opaque.web.png'' 5 5 0])"
    using l by simp
  have pre: "?src \<noteq> [] \<and> map_of ?fs ?src = Some (File [1, 2, 3, 4, 5]) \<and> pil_open ?Q [1, 2, 3, 4, 5] = Some ?pic
        \<and> map_of ?fs (parent ?src @ [stem (name ?src) @ ''.web.png'']) \<noteq> Some Dir"
    by (simp add: parent_def st)
  from C5_variant_never_larger [where P = ?Q and src = ?src and fs = ?fs
      and ?content0.0 = "[1, 2, 3, 4, 5]" and ?pic0.0 = ?pic, THEN conjunct2, rule_format, OF pre]
  have "\<not> (\<exists>r. optimize ?Q ?src ?fs = Inr r)" by simp
  with opt loop show ?thesis by simp
qed

text \<open>
  C6 as stated fails on two points. A file named exactly \<^verbatim>\<open>.png\<close> is accepted as a source
  (\<^verbatim>\<open>rglob("*.png")\<close> matches it), its \<^verbatim>\<open>pathlib\<close> stem is the whole name \<^verbatim>\<open>.png\<close>, and its
  variant is written to \<^verbatim>\<open>.png.web.png\<close>, not to \<^verbatim>\<open>.web.png\<close>, the path the claim gives
  for the name \<open>stem.png\<close> with an empty stem. And the selection looks at names only: a
  directory named \<^verbatim>\<open>dir.png\<close> is accepted as a source too, on which \<^verbatim>\<open>optimize\<close> then raises.
\<close>

theorem C6_dot_png_and_directory_accepted:
  "[''assets'', ''images'', ''.png''] \<in> set (discover_sources
      [([''assets'', ''images'', ''.png''], File [5, 5]),
       ([''assets'', ''images'', ''dir.png''], Dir)])
   \<and> name [''assets'', ''images'', ''.png''] = [] @ ''.png''
   \<and> optimize
        \<lparr>pil_open = (\<lambda>_. Some \<lparr>pic_bands = [''R'', ''G'', ''B''], pic_data = []\<rparr>),
         pil_converts = (\<lambda>_ _. True),
         pil_save_png = (\<lambda>_. Some [7])\<rparr>
        [''assets'', ''images'', ''.png'']
        [([''assets'', ''images'', ''.png''], File [5, 5]),
         ([''assets'', ''images'', ''dir.png''], Dir)]
      = Inr (([''assets'', ''images'', ''.png.web.png''], 2, 1),
             [([''assets'', ''images'', ''.png''], File [5, 5]),
              ([''assets'', ''images'', ''dir.png''], Dir),
              ([''assets'', ''images'', ''.png.web.png''], File [7])])
   \<and> [''assets'', ''images'', ''.png.web.png'']
        \<noteq> parent [''assets'', ''images'', ''.png''] @ [[] @ ''.web.png'']
   \<and> [''assets'', ''images'', ''dir.png''] \<in> set (discover_sources
      [([''assets'', ''images'', ''.png''], File [5, 5]),
       ([''assets'', ''images'', ''dir.png''], Dir)])
   \<and> optimize
        \<lparr>pil_open = (\<lambda>_. Some \<lparr>pic_bands = [''R'', ''G'', ''B''], pic_data = []\<rparr>),
         pil_converts = (\<lambda>_ _. True),
         pil_save_png = (\<lambda>_. Some [7])\<rparr>
        [''assets'', ''images'', ''dir.png'']
        [([''assets'', ''images'', ''.png''], File [5, 5]),
         ([''assets'', ''images'', ''dir.png''], Dir)]
      = Inl IsADirectoryError"
proof -
  let ?d = "[''assets'', ''images'', ''.png'']"
  let ?r = "[''assets'', ''images'', ''dir.png'']"
  let ?fs = "[(?d, File [5, 5 :: nat]), (?r, Dir)]"
  have st: "stem (name ?d) = ''.png''"
    by (simp add: stem_def rfind_def name_def)
  have "?d \<in> set (discover_sources ?fs)"
    unfolding discover_sources_iff
    by (simp add: IMAGES_ROOT_def SKIP_EXACT_def name_def endswith_def startswith_def
        suffix_to_prefix)
  moreover have "?r \<in> set (discover_sources ?fs)"
    unfolding discover_sources_iff
    by (simp add: IMAGES_ROOT_def SKIP_EXACT_def name_def endswith_def startswith_def
        suffix_to_prefix)
  moreover have "name ?d = [] @ ''.png''" by (simp add: name_def)
  moreover have "optimize
        \<lparr>pil_open = (\<lambda>_. Some \<lparr>pic_bands = [''R'', ''G'', ''B''], pic_data = []\<rparr>),
         pil_converts = (\<lambda>_ _. True),
         pil_save_png = (\<lambda>_. Some [7 :: nat])\<rparr> ?d ?fs
      = Inr (([''assets'', ''images'', ''.png.web.png''], 2, 1),
             [(?d, File [5, 5]), (?r, Dir), ([''assets'', ''images'', ''.png.web.png''], File [7])])"
    by (simp add: optimize_def with_name_def st convert_def save_png_def write_bytes_def
        stat_size_def copyfile_def)
  moreover have "[''assets'', ''images'', ''.png.web.png''] \<noteq> parent ?d @ [[] @ ''.web.png'']"
    by (simp add: parent_def)
  moreover have "optimize
        \<lparr>pil_open = (\<lambda>_. Some \<lparr>pic_bands = [''R'', ''G'', ''B''], pic_data = []\<rparr>),
         pil_converts = (\<lambda>_ _. True),
         pil_save_png = (\<lambda>_. Some [7 :: nat])\<rparr> ?r ?fs = Inl IsADirectoryError"
    by (simp add: optimize_fails(3))
  ultimately show ?thesis by simp
qed

text \<open>
  C6, amended: \<^verbatim>\<open>discover_sources\<close> returns, sorted, exactly the paths of the tree
  (whatever kind of node they are) that lie below the asset tree \<^verbatim>\<open>assets/images\<close>, are
  named \<^verbatim>\<open>*.png\<close>, do not start (as a relative POSIX path) with the excluded prefix
  \<^verbatim>\<open>assets/images/web/\<close>, are not one of the three excluded exact paths, and are not
  already named \<^verbatim>\<open>*.web.png\<close>. On an accepted path that is a directory \<^verbatim>\<open>optimize\<close> raises.
  When \<^verbatim>\<open>optimize\<close> returns, the variant is the sibling named by the \<^verbatim>\<open>pathlib\<close> stem
  followed by \<^verbatim>\<open>.web.png\<close>: for a source named \<open>s.png\<close> that is \<open>s.web.png\<close> when \<open>s\<close> is not
  empty, and \<^verbatim>\<open>.png.web.png\<close> for the name \<^verbatim>\<open>.png\<close>. What it re-encodes is the picture
  converted to \<open>RGBA\<close> when its bands include \<open>A\<close> and to \<open>RGB\<close> otherwise, and the variant
  holds that re-encoding unless it is larger than the source (then the source's bytes).
\<close>

theorem C6_source_selection_and_variant:
  "(p \<in> set (discover_sources fs) \<longleftrightarrow>
      p \<in> fst ` set fs \<and> strict_prefix IMAGES_ROOT p \<and> endswith (name p) ''.png''
      \<and> \<not> startswith (as_posix p) ''assets/images/web/''
      \<and> as_posix p \<notin> SKIP_EXACT
      \<and> \<not> endswith (name p) ''.web.png'')
   \<and> sorted (discover_sources fs)
   \<and> SKIP_EXACT = {''assets/images/android-icon-background.png'',
                    ''assets/images/android-icon-foreground.png'',
                    ''assets/images/android-icon-monochrome.png''}
   \<and> (p \<in> set (discover_sources fs) \<and> map_of fs p = Some Dir
        \<longrightarrow> optimize P p fs = Inl IsADirectoryError)
   \<and> (\<forall>dst before after fs'.
         optimize P p fs = Inr ((dst, before, after), fs') \<longrightarrow>
           dst = parent p @ [stem (name p) @ ''.web.png'']
         \<and> (\<forall>s. name p = s @ ''.png'' \<longrightarrow>
                 dst = parent p @ [(if s = [] then ''.png'' else s) @ ''.web.png''])
         \<and> (\<exists>content pic enc.
               map_of fs p = Some (File content) \<and> pil_open P content = Some pic
             \<and> pil_save_png P
                  (Convert pic (if ''A'' \<in> set (pic_bands pic) then ''RGBA'' else ''RGB''))
                 = Some enc
             \<and> map_of fs' dst = Some (File (if length content < length enc then content else enc))))"
proof (intro conjI allI impI)
  show "p \<in> set (discover_sources fs) \<longleftrightarrow>
      p \<in> fst ` set fs \<and> strict_prefix IMAGES_ROOT p \<and> endswith (name p) ''.png''
      \<and> \<not> startswith (as_posix p) ''assets/images/web/''
      \<and> as_posix p \<notin> SKIP_EXACT
      \<and> \<not> endswith (name p) ''.web.png''"
    by (rule discover_sources_iff)
  show "sorted (discover_sources fs)"
    by (simp add: discover_sources_def Let_def)
  show "SKIP_EXACT = {''assets/images/android-icon-background.png'',
                    ''assets/images/android-icon-foreground.png'',
                    ''assets/images/android-icon-monochrome.png''}"
    by (rule SKIP_EXACT_def)
next
  assume a: "p \<in> set (discover_sources fs) \<and> map_of fs p = Some Dir"
  then have "strict_prefix IMAGES_ROOT p" unfolding discover_sources_iff by blast
  then have "p \<noteq> []" by auto
  with a show "optimize P p fs = Inl IsADirectoryError"
    by (simp add: optimize_fails(3))
next
  fix dst before after fs'
  assume opt: "optimize P p fs = Inr ((dst, before, after), fs')"
  from optimize_result [OF opt] obtain content pic enc where
    r: "map_of fs p = Some (File content)" "pil_open P content = Some pic"
       "dst = parent p @ [stem (name p) @ ''.web.png'']"
    and enc: "pil_save_png P (Convert pic (if ''A'' \<in> set (pic_bands pic) then ''RGBA'' else ''RGB''))
                = Some enc"
    and fs': "map_of fs' = (map_of fs)(dst \<mapsto> File (if length content < length enc then content else enc))"
    by blast
  show "dst = parent p @ [stem (name p) @ ''.web.png'']" by (fact r(3))
  show "dst = parent p @ [(if s = [] then ''.png'' else s) @ ''.web.png'']"
    if nm: "name p = s @ ''.png''" for s
  proof (cases "s = []")
    case True
    with nm have "stem (name p) = ''.png''" by (simp add: stem_def rfind_def)
    with r(3) True show ?thesis by simp
  next
    case False
    with nm have "stem (name p) = s" by (simp add: stem_png)
    with r(3) False show ?thesis by simp
  qed
  from fs' have "map_of fs' dst = Some (File (if length content < length enc then content else enc))"
    by simp
  with r(1,2) enc show "\<exists>content pic enc.
               map_of fs p = Some (File content) \<and> pil_open P content = Some pic
             \<and> pil_save_png P
                  (Convert pic (if ''A'' \<in> set (pic_bands pic) then ''RGBA'' else ''RGB''))
                 = Some enc
             \<and> map_of fs' dst = Some (File (if length content < length enc then content else enc))"
    by blast
qed

text \<open>
  The amended C6 on a small tree: \<^verbatim>\<open>assets/images/a.png\<close> is accepted, a file below
  \<^verbatim>\<open>assets/images/web/\<close> is not; the source \<^verbatim>\<open>a.png\<close> has an alpha band, its variant is
  written to \<^verbatim>\<open>a.web.png\<close> beside it and holds the encoding of the \<open>RGBA\<close> conversion; on
  the accepted directory \<^verbatim>\<open>d.png\<close> \<^verbatim>\<open>optimize\<close> raises.
\<close>

theorem C6_source_selection_and_variant_witness:
  "[''assets'', ''images'', ''a.png''] \<in> set (discover_sources
      [([''assets'', ''images'', ''web'', ''x.png''], File [1]),
       ([''assets'', ''images'', ''a.png''], File [5, 5]),
       ([''assets'', ''images'', ''d.png''], Dir)])
   \<and> [''assets'', ''images'', ''web'', ''x.png''] \<notin> set (discover_sources
      [([''assets'', ''images'', ''web'', ''x.png''], File [1]),
       ([''assets'', ''images'', ''a.png''], File [5, 5]),
       ([''assets'', ''images'', ''d.png''], Dir)])
   \<and> optimize
        \<lparr>pil_open = (\<lambda>_. Some \<lparr>pic_bands = [''R'', ''G'', ''B'', ''A''], pic_data = []\<rparr>),
         pil_converts = (\<lambda>_ _. True),
         pil_save_png = (\<lambda>c. case c of Convert pic m \<Rightarrow> Some (if m = ''RGBA'' then [7] else [8, 8, 8]))\<rparr>
        [''assets'', ''images'', ''a.png'']
        [([''assets'', ''images'', ''web'', ''x.png''], File [1]),
         ([''assets'', ''images'', ''a.png''], File [5, 5]),
         ([''assets'', ''images'', ''d.png''], Dir)]
      = Inr (([''assets'', ''images'', ''a.web.png''], 2, 1),
             [([''assets'', ''images'', ''web'', ''x.png''], File [1]),
              ([''assets'', ''images'', ''a.png''], File [5, 5]),
              ([''assets'', ''images'', ''d.png''], Dir),
              ([''assets'', ''images'', ''a.web.png''], File [7])])
   \<and> optimize
        \<lparr>pil_open = (\<lambda>_. Some \<lparr>pic_bands = [''R'', ''G'', ''B'', ''A''], pic_data = []\<rparr>),
         pil_converts = (\<lambda>_ _. True),
         pil_save_png = (\<lambda>c. case c of Convert pic m \<Rightarrow> Some (if m = ''RGBA'' then [7] else [8, 8, 8]))\<rparr>
        [''assets'', ''images'', ''d.png'']
        [([''assets'', ''images'', ''web'', ''x.png''], File [1]),
         ([''assets'', ''images'', ''a.png''], File [5, 5]),
         ([''assets'', ''images'', ''d.png''], Dir)]
      = Inl IsADirectoryError"
proof -
  let ?P = "\<lparr>pil_open = (\<lambda>_. Some \<lparr>pic_bands = [''R'', ''G'', ''B'', ''A''], pic_data = []\<rparr>),
         pil_converts = (\<lambda>_ _. True),
         pil_save_png = (\<lambda>c. case c of Convert pic m \<Rightarrow> Some (if m = ''RGBA'' then [7] else [8, 8, 8 :: nat]))\<rparr>"
  let ?a = "[''assets'', ''images'', ''a.png'']"
  let ?x = "[''assets'', ''images'', ''web'', ''x.png'']"
  let ?d = "[''assets'', ''images'', ''d.png'']"
  let ?fs = "[(?x, File [1 :: nat]), (?a, File [5, 5]), (?d, Dir)]"
  let ?fs' = "[(?x, File [1 :: nat]), (?a, File [5, 5]), (?d, Dir),
               ([''assets'', ''images'', ''a.web.png''], File [7])]"
  note c6a = C6_source_selection_and_variant [where p = ?a and fs = ?fs and P = ?P, THEN conjunct1]
  note c6x = C6_source_selection_and_variant [where p = ?x and fs = ?fs and P = ?P, THEN conjunct1]
  note c6d = C6_source_selection_and_variant [where p = ?d and fs = ?fs and P = ?P, THEN conjunct1]
  note c6dir = C6_source_selection_and_variant [where p = ?d and fs = ?fs and P = ?P,
      THEN conjunct2, THEN conjunct2, THEN conjunct2, THEN conjunct1, rule_format]
  note c6v = C6_source_selection_and_variant [where p = ?a and fs = ?fs and P = ?P,
      THEN conjunct2, THEN conjunct2, THEN conjunct2, THEN conjunct2, rule_format]
  have a: "?a \<in> set (discover_sources ?fs)"
    unfolding c6a
    by (simp add: IMAGES_ROOT_def SKIP_EXACT_def name_def endswith_def startswith_def
        suffix_to_prefix)
  have x: "?x \<notin> set (discover_sources ?fs)"
    unfolding c6x by (simp add: startswith_def)
  have d: "?d \<in> set (discover_sources ?fs)"
    unfolding c6d
    by (simp add: IMAGES_ROOT_def SKIP_EXACT_def name_def endswith_def startswith_def
        suffix_to_prefix)
  have dir: "optimize ?P ?d ?fs = Inl IsADirectoryError"
    by (rule c6dir) (use d in simp)
  have st: "stem (name ?a) = ''a''"
    using stem_png [of "''a''"] by (simp add: name_def)
  have full: "optimize ?P ?a ?fs = Inr (([''assets'', ''images'', ''a.web.png''], 2, 1), ?fs')"
    by (simp add: optimize_def with_name_def st convert_def save_png_def write_bytes_def
        stat_size_def copyfile_def)
  from c6v [OF full] have "[''assets'', ''images'', ''a.web.png'']
      = parent ?a @ [stem (name ?a) @ ''.web.png'']"
    by blast
  with a x dir full show ?thesis by simp
qed

text \<open>
  C10: the report never divides by zero. Division raises on a zero divisor, and
  \<^verbatim>\<open>run\<close> never ends in \<^verbatim>\<open>ZeroDivisionError\<close>, whatever the sources, the tree and Pillow
  do. On no sources at all it returns 0 and prints the header and a total line with
  count 0, sizes 0 and reduction 0. Whenever it returns, it has printed the header, one
  line per source and the total line, and the reduction on each line is 0 when the
  before-size of that line is 0 and \<open>(1 - after / before) * 100\<close> otherwise.
\<close>

theorem C10_no_division_by_zero:
  "run P sources (fs, out) \<noteq> Inl ZeroDivisionError
   \<and> run P [] (fs, out) = Inr (0, fs, out @ [Header, TotalLine 0 0 0 0])
   \<and> (\<forall>rc fs' out'. run P sources (fs, out) = Inr (rc, fs', out') \<longrightarrow>
        rc = 0
      \<and> (\<exists>lines tb ta.
            out' = out @ [Header] @ lines
                   @ [TotalLine (length sources) tb ta
                        (if tb = 0 then 0 else (1 - real ta / real tb) * 100)]
          \<and> length lines = length sources
          \<and> (\<forall>l\<in>set lines. \<exists>s d b a.
                l = FileLine s d b a (if b = 0 then 0 else (1 - real a / real b) * 100))))
   \<and> truediv a 0 = Inl ZeroDivisionError
   \<and> (b \<noteq> 0 \<longrightarrow> truediv a b = Inr (real a / real b))"
proof (intro conjI allI impI)
  show "run P sources (fs, out) \<noteq> Inl ZeroDivisionError"
  proof (cases "run_loop P sources (0, 0, 0) (fs, out @ [Header])")
    case (Inl e)
    with run_loop_no_zero_division [of P sources 0 0 0 fs "out @ [Header]"] show ?thesis
      unfolding run_eq by simp
  next
    case (Inr r)
    then show ?thesis
      unfolding run_eq by (simp split: prod.splits)
  qed
  show "run P [] (fs, out) = Inr (0, fs, out @ [Header, TotalLine 0 0 0 0])"
    unfolding run_eq by simp
  show "truediv a 0 = Inl ZeroDivisionError" by (simp add: truediv_def)
  show "truediv a b = Inr (real a / real b)" if "b \<noteq> 0" using that by (simp add: truediv_def)
next
  fix rc fs' out'
  assume run: "run P sources (fs, out) = Inr (rc, fs', out')"
  then obtain tb ta n out1 where
    loop: "run_loop P sources (0, 0, 0) (fs, out @ [Header]) = Inr ((tb, ta, n), fs', out1)"
    and rc: "rc = 0"
    and out': "out' = out1 @ [TotalLine n tb ta (if tb = 0 then 0 else (1 - real ta / real tb) * 100)]"
    unfolding run_eq by (auto split: sum.splits prod.splits)
  from run_loop_result [OF loop] obtain lines where
    l: "out1 = (out @ [Header]) @ lines" "length lines = length sources" "n = 0 + length sources"
       "\<forall>l\<in>set lines. \<exists>s d b a.
                 l = FileLine s d b a (if b = 0 then 0 else (1 - real a / real b) * 100) \<and> a \<le> b"
    by blast
  show "rc = 0" by (fact rc)
  have "out' = out @ [Header] @ lines
                   @ [TotalLine (length sources) tb ta
                        (if tb = 0 then 0 else (1 - real ta / real tb) * 100)]"
    using out' l(1,3) by simp
  moreover have "\<forall>l\<in>set lines. \<exists>s d b a.
                l = FileLine s d b a (if b = 0 then 0 else (1 - real a / real b) * 100)"
    using l(4) by blast
  ultimately show "\<exists>lines tb ta.
            out' = out @ [Header] @ lines
                   @ [TotalLine (length sources) tb ta
                        (if tb = 0 then 0 else (1 - real ta / real tb) * 100)]
          \<and> length lines = length sources
          \<and> (\<forall>l\<in>set lines. \<exists>s d b a.
                l = FileLine s d b a (if b = 0 then 0 else (1 - real a / real b) * 100))"
    using l(2) by blast
qed

text \<open>
  C10 on a run over one source of size 0 that Pillow reads and re-encodes to 0 bytes:
  both before-sizes are 0, both reductions are reported as 0, and the run returns;
  and on a divisor that is not 0.
\<close>

theorem C10_no_division_by_zero_witness:
  "run \<lparr>pil_open = (\<lambda>_. Some \<lparr>pic_bands = [''L''], pic_data = []\<rparr>), pil_converts = (\<lambda>_ _. True),
        pil_save_png = (\<lambda>_. Some [])\<rparr>
     [[''assets'', ''images'', ''e.png'']]
     ([([''assets'', ''images'', ''e.png''], File [])], [])
   = Inr (0, [([''assets'', ''images'', ''e.png''], File []),
              ([''assets'', ''images'', ''e.web.png''], File [])],
          [Header, FileLine ''assets/images/e.png'' ''assets/images/e.web.png'' 0 0 0,
           TotalLine 1 0 0 0])
   \<and> truediv 1 2 = Inr (1 / 2)"
proof -
  let ?P = "\<lparr>pil_open = (\<lambda>_. Some \<lparr>pic_bands = [''L''], pic_data = []\<rparr>), pil_converts = (\<lambda>_ _. True),
        pil_save_png = (\<lambda>_. Some [])\<rparr>"
  let ?e = "[''assets'', ''images'', ''e.png'']"
  let ?fs = "[(?e, File ([] :: nat list))]"
  have st: "stem (name ?e) = ''e''"
    using stem_png [of "''e''"] by (simp add: name_def)
  have opt: "optimize ?P ?e ?fs =
      Inr (([''assets'', ''images'', ''e.web.png''], 0, 0),
           [(?e, File []), ([''assets'', ''images'', ''e.web.png''], File [])])"
    by (simp add: optimize_def with_name_def st convert_def save_png_def write_bytes_def
        stat_size_def copyfile_def)
  note c10 = C10_no_division_by_zero [where P = ?P and sources = "[?e]" and fs = ?fs and out = "[]"
      and a = 1 and b = 2]
  from c10 have nz: "run ?P [?e] (?fs, []) \<noteq> Inl ZeroDivisionError"
    and td: "(2::nat) \<noteq> 0 \<longrightarrow> truediv 1 2 = Inr (real 1 / real 2)"
    by blast+
  have "run ?P [?e] (?fs, []) =
      Inr (0, [(?e, File []), ([''assets'', ''images'', ''e.web.png''], File [])],
          [Header, FileLine ''assets/images/e.png'' ''assets/images/e.web.png'' 0 0 0,
           TotalLine 1 0 0 0])"
    unfolding run_eq run_loop_step opt by simp
  with td show ?thesis by simp
qed

end
